theory Spec2Isabelle
  imports Main "HOL-Library.Word" "HOL-Library.AList"
begin

section \<open>JavaScript strings\<close>

text \<open>
  A JavaScript string is a sequence of 16-bit code units, and every string operation the
  relay uses (\<open>matchAll\<close> with a regular expression that has no \<open>u\<close> flag,
  \<open>substring\<close>, \<open>slice\<close>, \<open>includes\<close>, \<open>trim\<close>, \<open>length\<close>) works on code units.
  String literals of the source are written \<open>js ''...''\<close>. A string is a list of any
  length here; the limit that an engine puts on the length of a string is not modelled.
\<close>

type_synonym code_unit = "16 word"
type_synonym jsstring = "code_unit list"

definition cu :: "char \<Rightarrow> code_unit" where
  "cu c = of_nat (of_char c)"

definition js :: "string \<Rightarrow> jsstring" where
  "js s = map cu s"

text \<open>
  \<open>String.prototype.substring(start, end)\<close>: both arguments are clamped to the length of
  the string and swapped when \<open>start > end\<close>. The one-argument form runs to the end.
\<close>

definition substring :: "jsstring \<Rightarrow> nat \<Rightarrow> nat \<Rightarrow> jsstring" where
  "substring s start end =
     (let a = min start (length s); b = min end (length s)
      in take (max a b - min a b) (drop (min a b) s))"

definition substring_from :: "jsstring \<Rightarrow> nat \<Rightarrow> jsstring" where
  "substring_from s start = drop (min start (length s)) s"

text \<open>
  The template literal \<open>`${counter}`\<close> renders a non-negative integer in decimal, without
  leading zeros. The counter of \<open>encode\<close> counts matches of a string, so it stays far below
  the range where a JavaScript number stops being an exact integer; it is a \<open>nat\<close> here.
\<close>

definition digit_unit :: "nat \<Rightarrow> code_unit" where
  "digit_unit d = js ''0123456789'' ! (d mod 10)"

function number_toString :: "nat \<Rightarrow> jsstring" where
  "number_toString n =
     (if n < 10 then [digit_unit n] else number_toString (n div 10) @ [digit_unit (n mod 10)])"
  by pat_completeness auto
termination
  by (relation "measure (\<lambda>n. n)") auto

declare number_toString.simps [simp del]

section \<open>The protected-token pattern\<close>

text \<open>
  \<open>DISCORD_TAG_REGEX = /<[:@][\d:]*>/g\<close>. Without the \<open>u\<close> flag \<open>\d\<close> is \<open>[0-9]\<close>.
  \<open>regex_match_at s\<close> is the length of the match that starts at the first code unit of
  \<open>s\<close>, if there is one. The star is greedy, and since \<open>>\<close> is not in the class
  \<open>[\d:]\<close>, giving back code units of the class can never make the final \<open>>\<close> match:
  the pattern matches exactly when the longest run of the class is followed by \<open>>\<close>.
\<close>

definition is_digit :: "code_unit \<Rightarrow> bool" where
  "is_digit c = (cu CHR ''0'' \<le> c \<and> c \<le> cu CHR ''9'')"

definition is_tag_body :: "code_unit \<Rightarrow> bool" where
  "is_tag_body c = (is_digit c \<or> c = cu CHR '':'')"

fun regex_match_at :: "jsstring \<Rightarrow> nat option" where
  "regex_match_at (c1 # c2 # rest) =
     (if c1 = cu CHR ''<'' \<and> (c2 = cu CHR '':'' \<or> c2 = cu CHR ''@'')
      then (case dropWhile is_tag_body rest of
              [] \<Rightarrow> None
            | c3 # _ \<Rightarrow>
                if c3 = cu CHR ''>'' then Some (length (takeWhile is_tag_body rest) + 3)
                else None)
      else None)"
| "regex_match_at _ = None"

lemma regex_match_at_pos: "regex_match_at s = Some n \<Longrightarrow> 0 < n"
  by (induction s rule: regex_match_at.induct) (auto split: if_splits list.splits)

text \<open>
  \<open>message.matchAll(DISCORD_TAG_REGEX)\<close> yields the matches from left to right; each has
  its \<open>index\<close> in the message and the matched text \<open>match[0]\<close>. The scan resumes right
  after a match (a match is never empty), and one code unit further where nothing matches.
  \<open>matchAll_from i s\<close> scans the rest \<open>s\<close> of the message that starts at index \<open>i\<close>.
\<close>

record regexp_match =
  match_index :: nat
  match_text :: jsstring

function matchAll_from :: "nat \<Rightarrow> jsstring \<Rightarrow> regexp_match list" where
  "matchAll_from i [] = []"
| "matchAll_from i (c # cs) =
     (case regex_match_at (c # cs) of
        Some n \<Rightarrow>
          \<lparr>match_index = i, match_text = take n (c # cs)\<rparr>
            # matchAll_from (i + n) (drop n (c # cs))
      | None \<Rightarrow> matchAll_from (i + 1) cs)"
  by pat_completeness auto
termination
  by (relation "measure (\<lambda>(i, s). length s)") (auto dest: regex_match_at_pos)

definition matchAll :: "jsstring \<Rightarrow> regexp_match list" where
  "matchAll message = matchAll_from 0 message"

section \<open>The tag transcoder\<close>

text \<open>
  \<open>TTagTable = Map<string, string>\<close>. A JavaScript \<open>Map\<close> keeps its entries in insertion
  order and \<open>set\<close> on a key that is present replaces the value in place: an association
  list with \<open>AList.update\<close>. \<open>get\<close> is \<open>map_of\<close>.
\<close>

type_synonym TTagTable = "(jsstring \<times> jsstring) list"

definition tag_key :: "nat \<Rightarrow> jsstring" where
  "tag_key counter = js ''<:'' @ number_toString counter @ js ''>''"

text \<open>
  The loop of \<open>encode\<close>: its state is \<open>(tokens, tagTable, counter, lastIndex)\<close>, one step
  per match.
\<close>

type_synonym encode_state = "jsstring list \<times> TTagTable \<times> nat \<times> nat"

definition encode_step :: "jsstring \<Rightarrow> encode_state \<Rightarrow> regexp_match \<Rightarrow> encode_state" where
  "encode_step message st m =
     (case st of (tokens, tagTable, counter, lastIndex) \<Rightarrow>
        (let token = substring message lastIndex (match_index m);
             key = tag_key counter
         in (tokens @ [token] @ [key],
             AList.update key (match_text m) tagTable,
             counter + 1,
             match_index m + length (match_text m))))"

definition encode :: "jsstring \<Rightarrow> jsstring \<times> TTagTable" where
  "encode message =
     (case foldl (encode_step message) ([], [], 0, 0) (matchAll message) of
        (tokens, tagTable, counter, lastIndex) \<Rightarrow>
          (concat (tokens @ [substring_from message lastIndex]), tagTable))"

text \<open>The loop of \<open>decode\<close>: its state is \<open>(tokens, lastIndex)\<close>.\<close>

type_synonym decode_state = "jsstring list \<times> nat"

definition decode_step ::
  "jsstring \<Rightarrow> TTagTable \<Rightarrow> decode_state \<Rightarrow> regexp_match \<Rightarrow> decode_state" where
  "decode_step message tagTable st m =
     (case st of (tokens, lastIndex) \<Rightarrow>
        (let token = substring message lastIndex (match_index m);
             key = match_text m
         in (tokens @ [token] @ [case map_of tagTable key of Some v \<Rightarrow> v | None \<Rightarrow> []],
             match_index m + length (match_text m))))"

definition decode :: "jsstring \<Rightarrow> TTagTable \<Rightarrow> jsstring" where
  "decode message tagTable =
     (case foldl (decode_step message tagTable) ([], 0) (matchAll message) of
        (tokens, lastIndex) \<Rightarrow> concat (tokens @ [substring_from message lastIndex]))"

text \<open>
  The two loops once more, as recursion on the rest of the message: at each position
  either a tag starts, and the output gets its replacement, or the code unit is copied.
  The loops above are shown to compute these functions; the properties of the transcoder
  are proved on them.
\<close>

function encode_text :: "nat \<Rightarrow> jsstring \<Rightarrow> jsstring" where
  "encode_text counter [] = []"
| "encode_text counter (c # cs) =
     (case regex_match_at (c # cs) of
        Some n \<Rightarrow> tag_key counter @ encode_text (counter + 1) (drop n (c # cs))
      | None \<Rightarrow> c # encode_text counter cs)"
  by pat_completeness auto
termination
  by (relation "measure (\<lambda>(k, s). length s)") (auto dest: regex_match_at_pos)

function decode_text :: "TTagTable \<Rightarrow> jsstring \<Rightarrow> jsstring" where
  "decode_text tagTable [] = []"
| "decode_text tagTable (c # cs) =
     (case regex_match_at (c # cs) of
        Some n \<Rightarrow>
          (case map_of tagTable (take n (c # cs)) of Some v \<Rightarrow> v | None \<Rightarrow> [])
            @ decode_text tagTable (drop n (c # cs))
      | None \<Rightarrow> c # decode_text tagTable cs)"
  by pat_completeness auto
termination
  by (relation "measure (\<lambda>(t, s). length s)") (auto dest: regex_match_at_pos)

text \<open>The number that a string of decimal digits denotes; it inverts \<open>number_toString\<close>.\<close>

definition decimal_value :: "jsstring \<Rightarrow> nat" where
  "decimal_value s = foldl (\<lambda>a c. 10 * a + (unat c - 48)) 0 s"

section \<open>Discord objects and stored documents\<close>

text \<open>
  Only the fields that the two event handlers read are kept. Ids (snowflakes) and language
  codes are strings. A value that may be \<open>null\<close> or \<open>undefined\<close> is an \<open>option\<close>.
\<close>

type_synonym snowflake = jsstring
type_synonym lang = jsstring
type_synonym Attachment = jsstring

datatype ChannelType = GuildText | OtherChannelType

record Channel =
  channel_id :: snowflake
  channel_type :: ChannelType

record User =
  user_id :: snowflake
  user_bot :: bool
  user_displayName :: jsstring
  user_avatarURL :: "jsstring option"
  user_displayAvatarURL :: jsstring

record GuildMember =
  member_displayName :: jsstring
  member_nickname :: "jsstring option"
  member_avatarURL :: "jsstring option"

text \<open>
  \<open>msg_client_user_id\<close> is \<open>message.client.user.id\<close>, the id of the bot itself.
  \<open>message.channelId\<close> is the id of \<open>message.channel\<close>.
\<close>

record Message =
  msg_id :: snowflake
  msg_channel :: Channel
  msg_author :: User
  msg_member :: "GuildMember option"
  msg_content :: jsstring
  msg_webhookId :: "snowflake option"
  msg_reference :: "snowflake option"
  msg_stickers :: "snowflake list"
  msg_attachments :: "Attachment list"
  msg_url :: jsstring
  msg_client_user_id :: snowflake

definition msg_channelId :: "Message \<Rightarrow> snowflake" where
  "msg_channelId message = channel_id (msg_channel message)"

text \<open>
  \<open>Message | PartialMessage\<close>, the argument of the update handler: author, guild and
  content may be missing.
\<close>

record PartialMessage =
  pmsg_id :: snowflake
  pmsg_channel :: Channel
  pmsg_author :: "User option"
  pmsg_guild :: "snowflake option"
  pmsg_content :: "jsstring option"

record Webhook =
  webhook_channelId :: snowflake
  webhook_owner_id :: "snowflake option"

record Embed =
  embed_color :: nat
  embed_author_name :: jsstring
  embed_author_iconURL :: jsstring
  embed_description :: jsstring

record WebhookPayload =
  payload_username :: jsstring
  payload_avatarURL :: "jsstring option"
  payload_content :: "jsstring option"
  payload_files :: "Attachment list option"
  payload_embeds :: "Embed list option"

text \<open>
  The declarations of the models \<open>TranslateChannel\<close>, \<open>ChannelLink\<close> and \<open>MessageLink\<close>
  are not available; the records have the fields the handlers and \<open>show-links\<close> use.
\<close>

record ITranslateChannel =
  tr_sourceLang :: lang
  tr_targetLang :: lang

record IChannelLinkItem =
  linked_id :: snowflake
  linked_sourceLang :: lang

record IChannelLink =
  chlink_id :: snowflake
  chlink_links :: "IChannelLinkItem list"

record IMessageLinkItem =
  item_messageId :: snowflake
  item_channelId :: snowflake

record IMessageLink =
  link_authorId :: snowflake
  link_messageId :: snowflake
  link_channelId :: snowflake
  link_links :: "IMessageLinkItem list"

section \<open>Effects, failures and collaborators\<close>

text \<open>
  Whatever a rejected promise carries is an \<open>error\<close>. The calls that change the world
  outside the handler are recorded as events, in the order the handler makes them.
\<close>

datatype error = Error jsstring

datatype event =
    TranslateText jsstring lang lang
  | WebhookSend Webhook WebhookPayload
  | WebhookEditMessage Webhook snowflake "jsstring option"
  | ErrorDebug error
  | MessageLinkSave IMessageLink

text \<open>
  The result of an \<open>async\<close> function: the events it caused, and either the error it
  rejected with or the value it resolved to.
\<close>

type_synonym 'a promise = "event list \<times> (error + 'a)"

definition resolve :: "'a \<Rightarrow> 'a promise" where
  "resolve x = ([], Inr x)"

definition await :: "'a promise \<Rightarrow> ('a \<Rightarrow> 'b promise) \<Rightarrow> 'b promise" where
  "await p k =
     (case p of
        (events, Inl e) \<Rightarrow> (events, Inl e)
      | (events, Inr x) \<Rightarrow> (case k x of (events', r) \<Rightarrow> (events @ events', r)))"

definition try_catch :: "'a promise \<Rightarrow> (error \<Rightarrow> 'a promise) \<Rightarrow> 'a promise" where
  "try_catch p handler =
     (case p of
        (events, Inl e) \<Rightarrow> (case handler e of (events', r) \<Rightarrow> (events @ events', r))
      | (events, Inr x) \<Rightarrow> (events, Inr x))"

text \<open>
  \<open>lookup\<close> is a call that only reads (a cache, the database, a fetch); \<open>call\<close> is a call
  that is recorded. Both continue with the collaborator's response.
\<close>

definition lookup :: "error + 'a \<Rightarrow> 'a promise" where
  "lookup response = ([], response)"

definition call :: "event \<Rightarrow> error + 'a \<Rightarrow> 'a promise" where
  "call ev response = ([ev], response)"

text \<open>
  \<open>Promise.all\<close> over promises that are already running: every branch runs to its end
  whatever the others do, so the events of all branches occur. The result is the list of
  the values in the order of the branches, or a rejection as soon as one branch rejects.
  The branches of a handler interleave at their suspension points; the events are listed
  here branch after branch, and of two rejections the one of the earlier branch is
  reported. Nothing below depends on that order.
\<close>

fun collect :: "(error + 'a) list \<Rightarrow> error + 'a list" where
  "collect [] = Inr []"
| "collect (Inl e # rs) = Inl e"
| "collect (Inr x # rs) = (case collect rs of Inl e \<Rightarrow> Inl e | Inr xs \<Rightarrow> Inr (x # xs))"

definition Promise_all :: "'a promise list \<Rightarrow> 'a list promise" where
  "Promise_all ps = (concat (map fst ps), collect (map snd ps))"

text \<open>
  The collaborators of one handler run: the client's channel cache, the three caches of
  the bot (\<open>webhookCache\<close>, \<open>translateChannels\<close>, \<open>channelLinks\<close>), the translator, the
  webhooks, the fetches of the messaging platform and the \<open>MessageLink\<close> collection. Each
  answers with a value or fails. \<open>MessageLink_documents\<close> is the content of the collection
  when the handler reads it.

  \<open>getMessagesFromMessageLink\<close> is a helper of the repository whose source is not
  available; it is a parameter here. It gets the link document, the id of the edited
  message and the guild, and answers with the linked messages, some of which may be
  \<open>undefined\<close>, or with \<open>undefined\<close>.
\<close>

record Collaborators =
  client_channels_cache_get :: "snowflake \<Rightarrow> Channel option"
  webhookCache_get :: "Channel \<Rightarrow> error + Webhook"
  translateChannels_get :: "snowflake \<Rightarrow> error + ITranslateChannel option"
  channelLinks_get :: "snowflake \<Rightarrow> error + IChannelLink option"
  translator_translateText :: "jsstring \<Rightarrow> lang \<Rightarrow> lang \<Rightarrow> error + jsstring"
  webhook_send :: "Webhook \<Rightarrow> WebhookPayload \<Rightarrow> error + Message"
  webhook_editMessage :: "Webhook \<Rightarrow> snowflake \<Rightarrow> jsstring option \<Rightarrow> error + unit"
  message_fetchWebhook :: "Message \<Rightarrow> error + Webhook"
  message_fetchReference :: "Message \<Rightarrow> error + Message option"
  channel_messages_fetch :: "Channel \<Rightarrow> snowflake \<Rightarrow> error + Message"
  MessageLink_documents :: "error + IMessageLink list"
  MessageLink_save :: "IMessageLink \<Rightarrow> error + unit"
  getMessagesFromMessageLink ::
    "IMessageLink \<Rightarrow> snowflake \<Rightarrow> snowflake \<Rightarrow> error + Message option list option"

text \<open>JavaScript truthiness of a string that may be missing: \<open>undefined\<close> and \<open>''\<close> are falsy.\<close>

definition truthy :: "jsstring option \<Rightarrow> bool" where
  "truthy s = (case s of None \<Rightarrow> False | Some t \<Rightarrow> t \<noteq> [])"

text \<open>\<open>a ?? b\<close> on values that may be missing.\<close>

definition nullish :: "'a option \<Rightarrow> 'a option \<Rightarrow> 'a option" where
  "nullish a b = (case a of None \<Rightarrow> b | Some x \<Rightarrow> Some x)"

text \<open>
  \<open>String.prototype.trim\<close> removes white space and line terminators from both ends:
  TAB, LF, VT, FF, CR, SPACE, NBSP, the Unicode space separators and U+2028, U+2029, U+FEFF.
\<close>

definition is_js_whitespace :: "code_unit \<Rightarrow> bool" where
  "is_js_whitespace c =
     (c \<in> set [0x9, 0xA, 0xB, 0xC, 0xD, 0x20, 0xA0, 0x1680, 0x2000, 0x2001, 0x2002, 0x2003,
               0x2004, 0x2005, 0x2006, 0x2007, 0x2008, 0x2009, 0x200A, 0x2028, 0x2029,
               0x202F, 0x205F, 0x3000, 0xFEFF])"

definition trim :: "jsstring \<Rightarrow> jsstring" where
  "trim s = rev (dropWhile is_js_whitespace (rev (dropWhile is_js_whitespace s)))"

text \<open>\<open>content.includes(search)\<close>: \<open>search\<close> occurs somewhere in \<open>content\<close>.\<close>

fun string_includes :: "jsstring \<Rightarrow> jsstring \<Rightarrow> bool" where
  "string_includes [] search = (search = [])"
| "string_includes (c # cs) search =
     (take (length search) (c # cs) = search \<or> string_includes cs search)"

section \<open>The create path (\<open>messageCreateTranslate.ts\<close>)\<close>

text \<open>
  \<open>translate\<close>: nothing for a body that trims to the empty string; otherwise encode, one
  call of the translator, decode.
\<close>

definition translate ::
  "Collaborators \<Rightarrow> jsstring \<Rightarrow> lang \<Rightarrow> lang \<Rightarrow> jsstring option promise" where
  "translate env content sourceLang targetLang =
     (if trim content = [] then resolve None
      else (case encode content of (messageToTranslate, tagTable) \<Rightarrow>
        await (call (TranslateText messageToTranslate sourceLang targetLang)
                 (translator_translateText env messageToTranslate sourceLang targetLang))
          (\<lambda>translatedContentToDecode.
             resolve (Some (decode translatedContentToDecode tagTable)))))"

text \<open>
  \<open>MessageLink.findOne({links: {$elemMatch: {messageId, channelId}}})\<close>: the first stored
  document one of whose links has both ids.
\<close>

definition findOne_links_elemMatch ::
  "IMessageLink list \<Rightarrow> snowflake \<Rightarrow> snowflake \<Rightarrow> IMessageLink option" where
  "findOne_links_elemMatch documents messageId channelId =
     find (\<lambda>document. list_ex (\<lambda>item. item_messageId item = messageId
                                       \<and> item_channelId item = channelId)
                               (link_links document)) documents"

record ReplyEmbed =
  reply_embed :: Embed
  reply_message :: Message

definition replyContent_of :: "Message \<Rightarrow> jsstring" where
  "replyContent_of replyMessage =
     (let replyContentRaw =
            (if length (msg_content replyMessage) > 77
             then take 77 (msg_content replyMessage) @ js ''...''
             else msg_content replyMessage)
      in if replyContentRaw = [] then
           (if msg_attachments replyMessage \<noteq> [] then
              js ''**[Replying to an attachment]('' @ msg_url replyMessage @ js '')** ''
                @ replyContentRaw
            else if msg_stickers replyMessage \<noteq> [] then
              js ''**[Replying to a sticker]('' @ msg_url replyMessage @ js '')**''
            else
              js ''**[Replying to an attachment]('' @ msg_url replyMessage @ js '')** ''
                @ replyContentRaw)
         else js ''**[Replying to:]('' @ msg_url replyMessage @ js '')** '' @ replyContentRaw)"

definition buildReplyEmbed ::
  "Collaborators \<Rightarrow> Message \<Rightarrow> Channel \<Rightarrow> ReplyEmbed option promise" where
  "buildReplyEmbed env message replyChannel =
     (case msg_reference message of
        None \<Rightarrow> resolve None
      | Some _ \<Rightarrow>
     (case client_channels_cache_get env (msg_channelId message) of
        None \<Rightarrow> resolve None
      | Some channel \<Rightarrow>
     if channel_type channel \<noteq> GuildText then resolve None
     else
       await (lookup (message_fetchReference env message)) (\<lambda>replyOriginalMessage.
       case replyOriginalMessage of
         None \<Rightarrow> resolve None
       | Some original \<Rightarrow>
       await (lookup (MessageLink_documents env)) (\<lambda>documents.
       case findOne_links_elemMatch documents (msg_id original) (msg_channelId message) of
         None \<Rightarrow> resolve None
       | Some messageLink \<Rightarrow>
       (case find (\<lambda>item. item_channelId item = channel_id replyChannel)
                  (link_links messageLink) of
          None \<Rightarrow> resolve None
        | Some link \<Rightarrow>
          await (lookup (channel_messages_fetch env replyChannel (item_messageId link)))
            (\<lambda>replyMessage.
               resolve (Some \<lparr>reply_embed =
                   \<lparr>embed_color = 0x0099ff,
                    embed_author_name =
                      (case (case msg_member replyMessage of
                               None \<Rightarrow> None | Some member \<Rightarrow> member_nickname member) of
                         Some nickname \<Rightarrow> nickname
                       | None \<Rightarrow> user_displayName (msg_author replyMessage)),
                    embed_author_iconURL =
                      (case (case msg_member replyMessage of
                               None \<Rightarrow> None | Some member \<Rightarrow> member_avatarURL member) of
                         Some url \<Rightarrow> url
                       | None \<Rightarrow> user_displayAvatarURL (msg_author replyMessage)),
                    embed_description = replyContent_of replyMessage\<rparr>,
                  reply_message = replyMessage\<rparr>)))))))"

definition addReplyPing :: "jsstring option \<Rightarrow> snowflake option \<Rightarrow> jsstring option" where
  "addReplyPing content authorId =
     (case authorId of
        None \<Rightarrow> content
      | Some author \<Rightarrow>
          if author = [] then content
          else if \<not> truthy content then Some (js ''<@'' @ author @ js ''>'')
          else if string_includes (the content) (js ''<@'' @ author @ js ''>'') then content
          else Some (the content @ js '' <@'' @ author @ js ''>''))"

text \<open>
  \<open>!reply?.message.author.bot ? reply?.message.author.id : undefined\<close>: without a reply
  embed both optional chains are \<open>undefined\<close>.
\<close>

definition replyAuthorId_of :: "ReplyEmbed option \<Rightarrow> snowflake option" where
  "replyAuthorId_of reply =
     (case reply of
        None \<Rightarrow> None
      | Some r \<Rightarrow>
          if \<not> user_bot (msg_author (reply_message r))
          then Some (user_id (msg_author (reply_message r))) else None)"

definition embeds_of :: "ReplyEmbed option \<Rightarrow> Embed list option" where
  "embeds_of reply = (case reply of None \<Rightarrow> None | Some r \<Rightarrow> Some [reply_embed r])"

text \<open>The body of the \<open>try\<close> block of \<open>translateChannel\<close>.\<close>

definition translateChannel_try ::
  "Collaborators \<Rightarrow> Message \<Rightarrow> Channel \<Rightarrow> Webhook \<Rightarrow> ITranslateChannel
     \<Rightarrow> ITranslateChannel \<Rightarrow> jsstring \<Rightarrow> jsstring option \<Rightarrow> Message option promise" where
  "translateChannel_try env message channel webhook sourceTrChannel targetTrChannel
       username avatarURL =
     await (buildReplyEmbed env message channel) (\<lambda>reply.
     let replyAuthorId = replyAuthorId_of reply in
     case msg_stickers message of
       sticker # _ \<Rightarrow>
         (let payload =
            \<lparr>payload_username = username, payload_avatarURL = avatarURL,
             payload_content =
               addReplyPing
                 (Some (js ''https://media.discordapp.net/stickers/'' @ sticker @ js ''.webp''))
                 replyAuthorId,
             payload_files = None,
             payload_embeds = embeds_of reply\<rparr>
          in await (call (WebhookSend webhook payload) (webhook_send env webhook payload))
               (\<lambda>sent. resolve (Some sent)))
     | [] \<Rightarrow>
         await (translate env (msg_content message) (tr_sourceLang sourceTrChannel)
                  (tr_targetLang targetTrChannel)) (\<lambda>translatedContent.
         let attachments = msg_attachments message;
             payload =
               \<lparr>payload_username = username, payload_avatarURL = avatarURL,
                payload_content = addReplyPing translatedContent replyAuthorId,
                payload_files = Some attachments,
                payload_embeds = embeds_of reply\<rparr>
         in await (call (WebhookSend webhook payload) (webhook_send env webhook payload))
              (\<lambda>sent. resolve (Some sent))))"

text \<open>
  \<open>message.member?.displayName ?? message.author.displayName\<close> and
  \<open>message.member?.avatarURL() ?? message.author.avatarURL() ?? undefined\<close>.
\<close>

definition username_of :: "Message \<Rightarrow> jsstring" where
  "username_of message =
     (case msg_member message of
        Some member \<Rightarrow> member_displayName member
      | None \<Rightarrow> user_displayName (msg_author message))"

definition avatarURL_of :: "Message \<Rightarrow> jsstring option" where
  "avatarURL_of message =
     nullish (case msg_member message of
                None \<Rightarrow> None | Some member \<Rightarrow> member_avatarURL member)
             (user_avatarURL (msg_author message))"

definition translateChannel ::
  "Collaborators \<Rightarrow> Message \<Rightarrow> snowflake \<Rightarrow> ITranslateChannel \<Rightarrow> Message option promise"
  where
  "translateChannel env message channelId sourceTrChannel =
     (case client_channels_cache_get env channelId of
        None \<Rightarrow> resolve None
      | Some channel \<Rightarrow>
     if channel_type channel \<noteq> GuildText then resolve None
     else
       await (lookup (webhookCache_get env channel)) (\<lambda>webhook.
       await (lookup (translateChannels_get env (channel_id channel))) (\<lambda>targetTrChannel.
       case targetTrChannel of
         None \<Rightarrow> resolve None
       | Some target \<Rightarrow>
         (let username = username_of message;
              avatarURL = avatarURL_of message
          in try_catch
               (translateChannel_try env message channel webhook sourceTrChannel target
                  username avatarURL)
               (\<lambda>error. await (call (ErrorDebug error) (Inr ())) (\<lambda>_. resolve None))))))"

text \<open>
  The first lines of \<open>execute\<close>: a message sent through one of the bot's own webhooks is
  ignored.
\<close>

definition own_webhook_message :: "Collaborators \<Rightarrow> Message \<Rightarrow> bool promise" where
  "own_webhook_message env message =
     (if user_id (msg_author message) \<noteq> msg_client_user_id message
         \<and> truthy (msg_webhookId message)
      then await (lookup (message_fetchWebhook env message))
             (\<lambda>webhook. resolve (webhook_owner_id webhook = Some (msg_client_user_id message)))
      else resolve False)"

definition link_item_of :: "Message \<Rightarrow> IMessageLinkItem" where
  "link_item_of m = \<lparr>item_messageId = msg_id m, item_channelId = msg_channelId m\<rparr>"

text \<open>
  The document that \<open>execute\<close> saves: a link for each message that a branch returned, then
  the link of the origin message itself.
\<close>

definition messageLink_of :: "Message \<Rightarrow> Message option list \<Rightarrow> IMessageLink" where
  "messageLink_of message messages =
     (let messagesIds =
            map (\<lambda>m. link_item_of (the m)) (filter (\<lambda>m. m \<noteq> None) messages)
              @ [link_item_of message]
      in \<lparr>link_authorId = user_id (msg_author message),
          link_messageId = msg_id message,
          link_channelId = msg_channelId message,
          link_links = messagesIds\<rparr>)"

definition execute :: "Collaborators \<Rightarrow> Message \<Rightarrow> unit promise" where
  "execute env message =
     await (own_webhook_message env message) (\<lambda>own.
     if own then resolve ()
     else
       await (lookup (translateChannels_get env (msg_channelId message))) (\<lambda>sourceTrChannel.
       await (lookup (channelLinks_get env (msg_channelId message))) (\<lambda>link.
       case (sourceTrChannel, link) of
         (Some source, Some chlink) \<Rightarrow>
           await (Promise_all
                    (map (\<lambda>linked. translateChannel env message (linked_id linked) source)
                       (chlink_links chlink))) (\<lambda>messages.
           let messageLink = messageLink_of message messages
           in call (MessageLinkSave messageLink) (MessageLink_save env messageLink))
       | _ \<Rightarrow> resolve ())))"

section \<open>The edit path (\<open>messageUpdateTranslate.ts\<close>)\<close>

text \<open>\<open>MessageLink.findOne({messageId})\<close>: the first stored document of that origin.\<close>

definition findOne_messageId :: "IMessageLink list \<Rightarrow> snowflake \<Rightarrow> IMessageLink option" where
  "findOne_messageId documents messageId =
     find (\<lambda>document. link_messageId document = messageId) documents"

text \<open>
  Modelled from the spec: \<open>translateContent\<close>, which the update handler imports from
  \<open>messageCreateTranslate\<close>, is missing there; the file has \<open>translate\<close>, without the
  guild argument. The spec has the edit path re-run the translate sub-procedure of the
  create path on the new content, so \<open>translateContent\<close> is \<open>translate\<close> and the guild id
  is not used.
\<close>

definition translateContent ::
  "Collaborators \<Rightarrow> jsstring \<Rightarrow> snowflake \<Rightarrow> lang \<Rightarrow> lang \<Rightarrow> jsstring option promise"
  where
  "translateContent env content guildId sourceLang targetLang =
     translate env content sourceLang targetLang"

text \<open>The function mapped over the linked messages, for one of them.\<close>

definition update_copy ::
  "Collaborators \<Rightarrow> jsstring \<Rightarrow> snowflake \<Rightarrow> ITranslateChannel \<Rightarrow> Message option
     \<Rightarrow> unit promise" where
  "update_copy env content guildId sourceTrChannel linked =
     (case linked of
        None \<Rightarrow> resolve ()
      | Some message \<Rightarrow>
     if \<not> truthy (msg_webhookId message) then resolve ()
     else if channel_type (msg_channel message) \<noteq> GuildText then resolve ()
     else
       await (lookup (translateChannels_get env (msg_channelId message))) (\<lambda>targetTrChannel.
       case targetTrChannel of
         None \<Rightarrow> resolve ()
       | Some target \<Rightarrow>
           try_catch
             (await (translateContent env content guildId (tr_sourceLang sourceTrChannel)
                       (tr_targetLang target)) (\<lambda>translatedContent.
              await (lookup (webhookCache_get env (msg_channel message))) (\<lambda>webhook.
              call (WebhookEditMessage webhook (msg_id message) translatedContent)
                (webhook_editMessage env webhook (msg_id message) translatedContent))))
             (\<lambda>error. call (ErrorDebug error) (Inr ()))))"

definition execute_update :: "Collaborators \<Rightarrow> PartialMessage \<Rightarrow> unit promise" where
  "execute_update env newMessage =
     (if (case pmsg_author newMessage of None \<Rightarrow> False | Some author \<Rightarrow> user_bot author)
      then resolve ()
      else
     case pmsg_guild newMessage of
       None \<Rightarrow> resolve ()
     | Some guild \<Rightarrow>
     if channel_type (pmsg_channel newMessage) \<noteq> GuildText then resolve ()
     else
     case pmsg_content newMessage of
       None \<Rightarrow> resolve ()
     | Some content \<Rightarrow>
     if content = [] then resolve ()
     else
       await (lookup (MessageLink_documents env)) (\<lambda>documents.
       case findOne_messageId documents (pmsg_id newMessage) of
         None \<Rightarrow> resolve ()
       | Some link \<Rightarrow>
       await (lookup (translateChannels_get env (channel_id (pmsg_channel newMessage))))
         (\<lambda>sourceTrChannel.
       case sourceTrChannel of
         None \<Rightarrow> resolve ()
       | Some source \<Rightarrow>
       await (lookup (getMessagesFromMessageLink env link (pmsg_id newMessage) guild))
         (\<lambda>messages.
       case messages of
         None \<Rightarrow> resolve ()
       | Some linked \<Rightarrow>
           await (Promise_all (map (update_copy env content guild source) linked))
             (\<lambda>_. resolve ())))))"

section \<open>Example collaborators and messages\<close>

text \<open>
  A guild with three linked channels: \<open>100\<close> (English), \<open>200\<close> (Spanish) and \<open>300\<close>
  (French). The translator tags the text with the target language and fails for French.
  Two link documents are stored, for the messages \<open>440\<close> and \<open>640\<close> of channel \<open>200\<close>.
\<close>

definition ex_bot_id :: snowflake where
  "ex_bot_id = js ''999''"

definition ex_channel :: "snowflake \<Rightarrow> Channel" where
  "ex_channel channelId = \<lparr>channel_id = channelId, channel_type = GuildText\<rparr>"

definition ex_user :: "snowflake \<Rightarrow> User" where
  "ex_user userId =
     \<lparr>user_id = userId, user_bot = False, user_displayName = js ''user '' @ userId,
      user_avatarURL = None, user_displayAvatarURL = js ''https://cdn.example/'' @ userId\<rparr>"

definition ex_message :: "snowflake \<Rightarrow> snowflake \<Rightarrow> snowflake \<Rightarrow> jsstring \<Rightarrow> Message" where
  "ex_message messageId channelId authorId content =
     \<lparr>msg_id = messageId, msg_channel = ex_channel channelId, msg_author = ex_user authorId,
      msg_member = None, msg_content = content, msg_webhookId = None, msg_reference = None,
      msg_stickers = [], msg_attachments = [],
      msg_url = js ''https://discord.example/'' @ channelId @ js ''/'' @ messageId,
      msg_client_user_id = ex_bot_id\<rparr>"

definition ex_webhook :: "snowflake \<Rightarrow> Webhook" where
  "ex_webhook channelId = \<lparr>webhook_channelId = channelId, webhook_owner_id = Some ex_bot_id\<rparr>"

definition ex_copy :: "snowflake \<Rightarrow> snowflake \<Rightarrow> jsstring option \<Rightarrow> Message" where
  "ex_copy messageId channelId content =
     (ex_message messageId channelId (js ''998'') (case content of None \<Rightarrow> [] | Some c \<Rightarrow> c))
       \<lparr>msg_author := (ex_user (js ''998''))\<lparr>user_bot := True\<rparr>,
        msg_webhookId := Some (js ''998'')\<rparr>"

definition ex_link_440 :: IMessageLink where
  "ex_link_440 =
     \<lparr>link_authorId = js ''77'', link_messageId = js ''440'', link_channelId = js ''200'',
      link_links = [\<lparr>item_messageId = js ''450'', item_channelId = js ''100''\<rparr>,
                    \<lparr>item_messageId = js ''440'', item_channelId = js ''200''\<rparr>]\<rparr>"

definition ex_link_640 :: IMessageLink where
  "ex_link_640 =
     \<lparr>link_authorId = js ''77'', link_messageId = js ''640'', link_channelId = js ''200'',
      link_links = [\<lparr>item_messageId = js ''650'', item_channelId = js ''300''\<rparr>,
                    \<lparr>item_messageId = js ''640'', item_channelId = js ''200''\<rparr>]\<rparr>"

definition ex_env :: Collaborators where
  "ex_env =
     \<lparr>client_channels_cache_get =
        (\<lambda>channelId. if channelId = js ''100'' \<or> channelId = js ''200'' \<or> channelId = js ''300''
                      then Some (ex_channel channelId) else None),
      webhookCache_get = (\<lambda>channel. Inr (ex_webhook (channel_id channel))),
      translateChannels_get =
        (\<lambda>channelId.
           if channelId = js ''100''
           then Inr (Some \<lparr>tr_sourceLang = js ''en'', tr_targetLang = js ''en-US''\<rparr>)
           else if channelId = js ''200''
           then Inr (Some \<lparr>tr_sourceLang = js ''es'', tr_targetLang = js ''es''\<rparr>)
           else if channelId = js ''300''
           then Inr (Some \<lparr>tr_sourceLang = js ''fr'', tr_targetLang = js ''fr''\<rparr>)
           else Inr None),
      channelLinks_get =
        (\<lambda>channelId.
           if channelId = js ''100''
           then Inr (Some \<lparr>chlink_id = js ''100'',
                             chlink_links =
                               [\<lparr>linked_id = js ''200'', linked_sourceLang = js ''es''\<rparr>,
                                \<lparr>linked_id = js ''300'', linked_sourceLang = js ''fr''\<rparr>]\<rparr>)
           else Inr None),
      translator_translateText =
        (\<lambda>text sourceLang targetLang.
           if targetLang = js ''fr'' then Inl (Error (js ''quota exceeded''))
           else Inr (js ''['' @ targetLang @ js ''] '' @ text)),
      webhook_send =
        (\<lambda>webhook payload.
           Inr (ex_copy (js ''9'' @ webhook_channelId webhook) (webhook_channelId webhook)
                  (payload_content payload))),
      webhook_editMessage = (\<lambda>webhook messageId content. Inr ()),
      message_fetchWebhook = (\<lambda>message. Inl (Error (js ''unknown webhook''))),
      message_fetchReference =
        (\<lambda>message.
           if msg_reference message = Some (js ''450'')
           then Inr (Some (ex_copy (js ''450'') (js ''100'') (Some (js ''[en-US] buenos dias''))))
           else if msg_reference message = Some (js ''460'')
           then Inr (Some (ex_message (js ''460'') (js ''100'') (js ''77'') (js ''good morning'')))
           else Inl (Error (js ''unknown message''))),
      channel_messages_fetch =
        (\<lambda>channel messageId.
           if channel_id channel = js ''200'' \<and> messageId = js ''440''
           then Inr (ex_message (js ''440'') (js ''200'') (js ''77'') (js ''buenos dias''))
           else Inl (Error (js ''unknown message''))),
      MessageLink_documents = Inr [ex_link_440, ex_link_640],
      MessageLink_save = (\<lambda>document. Inr ()),
      getMessagesFromMessageLink =
        (\<lambda>link messageId guild.
           Inr (Some (map (\<lambda>item. Some (ex_copy (item_messageId item) (item_channelId item)
                                           (Some (js ''old text''))))
                        (filter (\<lambda>item. item_messageId item \<noteq> messageId)
                           (link_links link)))))\<rparr>"

definition ex_source_en :: ITranslateChannel where
  "ex_source_en = \<lparr>tr_sourceLang = js ''en'', tr_targetLang = js ''en-US''\<rparr>"

definition ex_hello :: Message where
  "ex_hello = ex_message (js ''500'') (js ''100'') (js ''42'') (js ''hello <@7>'')"

definition ex_payload :: "jsstring \<Rightarrow> WebhookPayload" where
  "ex_payload content =
     \<lparr>payload_username = js ''user 42'', payload_avatarURL = None,
      payload_content = Some content, payload_files = Some [], payload_embeds = None\<rparr>"

definition ex_saved :: "snowflake \<Rightarrow> IMessageLink" where
  "ex_saved messageId =
     \<lparr>link_authorId = js ''42'', link_messageId = messageId, link_channelId = js ''100'',
      link_links = [\<lparr>item_messageId = js ''9200'', item_channelId = js ''200''\<rparr>,
                    \<lparr>item_messageId = messageId, item_channelId = js ''100''\<rparr>]\<rparr>"

definition ex_bye :: Message where
  "ex_bye = ex_message (js ''501'') (js ''100'') (js ''42'') (js ''bye'')"

definition ex_chlink :: IChannelLink where
  "ex_chlink =
     \<lparr>chlink_id = js ''100'',
      chlink_links = [\<lparr>linked_id = js ''200'', linked_sourceLang = js ''es''\<rparr>,
                      \<lparr>linked_id = js ''300'', linked_sourceLang = js ''fr''\<rparr>]\<rparr>"

definition ex_reply :: Message where
  "ex_reply = (ex_message (js ''520'') (js ''100'') (js ''42'') (js ''gracias''))
                \<lparr>msg_reference := Some (js ''450'')\<rparr>"

definition ex_reply_old :: Message where
  "ex_reply_old = (ex_message (js ''510'') (js ''100'') (js ''42'') (js ''thanks''))
                    \<lparr>msg_reference := Some (js ''460'')\<rparr>"

definition ex_edit :: "snowflake \<Rightarrow> jsstring \<Rightarrow> PartialMessage" where
  "ex_edit messageId content =
     \<lparr>pmsg_id = messageId, pmsg_channel = ex_channel (js ''200''),
      pmsg_author = Some (ex_user (js ''77'')), pmsg_guild = Some (js ''1''),
      pmsg_content = Some content\<rparr>"

definition ex_env_webhook_down :: Collaborators where
  "ex_env_webhook_down =
     ex_env\<lparr>webhookCache_get :=
       (\<lambda>channel. if channel_id channel = js ''300''
                  then Inl (Error (js ''missing permissions''))
                  else Inr (ex_webhook (channel_id channel)))\<rparr>"




definition ex_env_webhook_down_100 :: Collaborators where
  "ex_env_webhook_down_100 =
     ex_env\<lparr>webhookCache_get :=
       (\<lambda>channel. if channel_id channel = js ''100''
                  then Inl (Error (js ''missing permissions''))
                  else Inr (ex_webhook (channel_id channel)))\<rparr>"

definition ex_unconfigured :: Message where
  "ex_unconfigured = ex_message (js ''700'') (js ''400'') (js ''42'') (js ''hi'')"

definition ex_reply_embed :: Embed where
  "ex_reply_embed =
     \<lparr>embed_color = 0x0099ff, embed_author_name = js ''user 77'',
      embed_author_iconURL = js ''https://cdn.example/77'',
      embed_description =
        js ''**[Replying to:](https://discord.example/200/440)** buenos dias''\<rparr>"

section \<open>Properties of the tag transcoder\<close>

lemma regex_match_at_le: "regex_match_at s = Some n \<Longrightarrow> n \<le> length s"
proof (induction s rule: regex_match_at.induct)
  case (1 c1 c2 rest)
  have "length (takeWhile is_tag_body rest) + length (dropWhile is_tag_body rest) = length rest"
    by (metis length_append takeWhile_dropWhile_id)
  with 1 show ?case
    by (auto split: if_splits list.splits)
qed simp_all

lemma substring_prefix:
  "lastIndex \<le> length pre \<Longrightarrow> substring (pre @ suf) lastIndex (length pre) = drop lastIndex pre"
  by (simp add: substring_def Let_def min_def max_def)

lemma update_fresh: "k \<notin> fst ` set al \<Longrightarrow> AList.update k v al = al @ [(k, v)]"
  by (induction al) auto

lemma digit_cases: "d mod 10 \<in> {0, 1, 2, 3, 4, 5, 6, 7, 8, 9 :: nat}"
proof -
  have "d mod 10 < 10" by simp
  then show ?thesis by (simp only: insert_iff empty_iff) arith
qed

lemma digit_unit_is_digit: "is_digit (digit_unit d)"
  using digit_cases [of d]
  by (auto simp: digit_unit_def js_def cu_def is_digit_def)

lemma digit_unit_value: "unat (digit_unit d) - 48 = d mod 10"
  using digit_cases [of d]
  by (auto simp: digit_unit_def js_def cu_def)

lemma number_toString_digits: "c \<in> set (number_toString n) \<Longrightarrow> is_digit c"
proof (induction n rule: number_toString.induct)
  case (1 n)
  then show ?case
    by (subst (asm) (2) number_toString.simps) (auto simp: digit_unit_is_digit split: if_splits)
qed

lemma decimal_value_number_toString: "decimal_value (number_toString n) = n"
proof (induction n rule: number_toString.induct)
  case (1 n)
  show ?case
  proof (cases "n < 10")
    case True
    then show ?thesis
      by (subst number_toString.simps) (simp add: decimal_value_def digit_unit_value)
  next
    case False
    with 1 have "decimal_value (number_toString (n div 10)) = n div 10" by simp
    with False show ?thesis
      by (subst number_toString.simps) (simp add: decimal_value_def digit_unit_value)
  qed
qed

lemma number_toString_inj: "number_toString a = number_toString b \<Longrightarrow> a = b"
  by (metis decimal_value_number_toString)

lemma tag_key_inj: "tag_key a = tag_key b \<Longrightarrow> a = b"
  by (simp add: tag_key_def number_toString_inj)

lemma tag_key_Cons: "tag_key k = cu CHR ''<'' # cu CHR '':'' # number_toString k @ [cu CHR ''>'']"
  by (simp add: tag_key_def js_def)

lemma not_tag_body_gt: "\<not> is_tag_body (cu CHR ''>'')"
  by (simp add: is_tag_body_def is_digit_def cu_def)

lemma not_tag_body_lt: "\<not> is_tag_body (cu CHR ''<'')"
  by (simp add: is_tag_body_def is_digit_def cu_def)

lemma number_toString_body: "c \<in> set (number_toString n) \<Longrightarrow> is_tag_body c"
  by (simp add: is_tag_body_def number_toString_digits)

lemma regex_match_at_tag_key:
  "regex_match_at (tag_key k @ rest) = Some (length (tag_key k))"
  by (simp add: tag_key_Cons dropWhile_append2 takeWhile_append2 number_toString_body
      not_tag_body_gt)

lemma lt_neq_gt: "cu CHR ''<'' \<noteq> cu CHR ''>''"
  by (simp add: cu_def)

lemma dropWhile_body_lt:
  "rest = [] \<or> hd rest = cu CHR ''<'' \<Longrightarrow> dropWhile is_tag_body rest = rest"
  by (cases rest) (auto simp: not_tag_body_lt)

lemma regex_match_at_no_gt:
  "dropWhile is_tag_body z = r \<Longrightarrow> r = [] \<or> hd r = cu CHR ''<''
     \<Longrightarrow> regex_match_at (c1 # c2 # z) = None"
  by (cases r) (auto simp: lt_neq_gt simp del: dropWhile_eq_Nil_conv)

lemma regex_match_at_append_lt:
  assumes "y \<noteq> []" and "rest = [] \<or> hd rest = cu CHR ''<''"
  shows "regex_match_at (y @ rest) = regex_match_at y"
proof (cases y)
  case Nil
  with assms show ?thesis by simp
next
  case (Cons c1 y1)
  show ?thesis
  proof (cases y1)
    case Nil
    with Cons assms(2) show ?thesis
      by (cases rest) (auto simp: cu_def)
  next
    case (Cons c2 y2)
    show ?thesis
    proof (cases "\<forall>x \<in> set y2. is_tag_body x")
      case True
      then have d: "dropWhile is_tag_body (y2 @ rest) = rest" "dropWhile is_tag_body y2 = []"
        using assms(2) by (simp_all add: dropWhile_append2 dropWhile_body_lt)
      have "regex_match_at (c1 # c2 # y2) = None"
        by (rule regex_match_at_no_gt [OF d(2)]) simp
      moreover have "regex_match_at (c1 # c2 # y2 @ rest) = None"
        by (rule regex_match_at_no_gt [OF d(1) assms(2)])
      ultimately show ?thesis
        using \<open>y = c1 # y1\<close> \<open>y1 = c2 # y2\<close> by simp
    next
      case False
      then obtain x where "x \<in> set y2" "\<not> is_tag_body x" by blast
      then have "dropWhile is_tag_body (y2 @ rest) = dropWhile is_tag_body y2 @ rest"
        "takeWhile is_tag_body (y2 @ rest) = takeWhile is_tag_body y2"
        "dropWhile is_tag_body y2 \<noteq> []"
        by (simp_all add: dropWhile_append1 takeWhile_append1) (metis dropWhile_eq_Nil_conv)
      with \<open>y = c1 # y1\<close> \<open>y1 = c2 # y2\<close> show ?thesis
        by (auto split: list.splits)
    qed
  qed
qed

lemma regex_match_at_append:
  assumes "regex_match_at m = Some n"
  shows "regex_match_at (m @ rest) = Some n"
  using assms
proof (induction m rule: regex_match_at.induct)
  case (1 c1 c2 y2)
  then have ne: "dropWhile is_tag_body y2 \<noteq> []"
    by (auto split: if_splits list.splits simp del: dropWhile_eq_Nil_conv)
  then obtain x where "x \<in> set y2" "\<not> is_tag_body x"
    by (metis dropWhile_eq_Nil_conv)
  then have "dropWhile is_tag_body (y2 @ rest) = dropWhile is_tag_body y2 @ rest"
    "takeWhile is_tag_body (y2 @ rest) = takeWhile is_tag_body y2"
    by (simp_all add: dropWhile_append1 takeWhile_append1)
  with 1 ne show ?case
    by (auto split: if_splits list.splits)
qed simp_all

lemma regex_match_at_hd: "regex_match_at s = Some n \<Longrightarrow> s \<noteq> [] \<and> hd s = cu CHR ''<''"
  by (induction s rule: regex_match_at.induct) (auto split: if_splits)

text \<open>Up to its first \<open><\<close> the encoded text is the text itself.\<close>

lemma encode_text_prefix:
  "\<exists>w. encode_text k s = takeWhile (\<lambda>c. c \<noteq> cu CHR ''<'') s @ w
     \<and> (w = [] \<or> hd w = cu CHR ''<'')"
proof (induction k s rule: encode_text.induct)
  case (1 k)
  show ?case by simp
next
  case (2 k c cs)
  show ?case
  proof (cases "regex_match_at (c # cs)")
    case None
    show ?thesis
    proof (cases "c = cu CHR ''<''")
      case True
      with None show ?thesis by simp
    next
      case False
      with None 2(1) [OF None] show ?thesis by auto
    qed
  next
    case (Some n)
    then have "c = cu CHR ''<''" using regex_match_at_hd by fastforce
    with Some show ?thesis by (simp add: tag_key_Cons)
  qed
qed

lemma regex_match_at_encode_text:
  "regex_match_at (c # encode_text k cs) = regex_match_at (c # cs)"
proof -
  let ?u = "takeWhile (\<lambda>c. c \<noteq> cu CHR ''<'') cs"
  let ?v = "dropWhile (\<lambda>c. c \<noteq> cu CHR ''<'') cs"
  obtain w where w: "encode_text k cs = ?u @ w" "w = [] \<or> hd w = cu CHR ''<''"
    using encode_text_prefix by blast
  have v: "?v = [] \<or> hd ?v = cu CHR ''<''"
    using hd_dropWhile [of "\<lambda>c. c \<noteq> cu CHR ''<''" cs] by blast
  have "regex_match_at ((c # ?u) @ w) = regex_match_at (c # ?u)"
    using w(2) by (intro regex_match_at_append_lt) simp_all
  moreover have "regex_match_at ((c # ?u) @ ?v) = regex_match_at (c # ?u)"
    using v by (intro regex_match_at_append_lt) simp_all
  ultimately show ?thesis using w(1) by simp
qed

lemma decode_text_tag_key:
  "decode_text tagTable (tag_key k @ rest) =
     (case map_of tagTable (tag_key k) of Some v \<Rightarrow> v | None \<Rightarrow> []) @ decode_text tagTable rest"
proof -
  obtain c cs where "tag_key k @ rest = c # cs" by (simp add: tag_key_Cons)
  then show ?thesis
    using regex_match_at_tag_key [of k rest] by (metis (no_types, lifting) append_eq_conv_conj decode_text.simps(2) option.simps(5))
qed

lemma decode_text_encode_text:
  assumes "\<forall>j < length (matchAll_from i s).
             map_of tagTable (tag_key (k + j)) = Some (match_text (matchAll_from i s ! j))"
  shows "decode_text tagTable (encode_text k s) = s"
  using assms
proof (induction k s arbitrary: i rule: encode_text.induct)
  case (1 k)
  show ?case by simp
next
  case (2 k c cs)
  show ?case
  proof (cases "regex_match_at (c # cs)")
    case None
    with 2(3) have "\<forall>j < length (matchAll_from (i + 1) cs).
        map_of tagTable (tag_key (k + j)) = Some (match_text (matchAll_from (i + 1) cs ! j))"
      by simp
    with 2(1) [OF None] have "decode_text tagTable (encode_text k cs) = cs" by blast
    with None show ?thesis
      by (simp add: regex_match_at_encode_text)
  next
    case (Some n)
    let ?ms = "matchAll_from (i + n) (drop n (c # cs))"
    from Some have ms: "matchAll_from i (c # cs)
        = \<lparr>match_index = i, match_text = take n (c # cs)\<rparr> # ?ms"
      by simp
    have "\<forall>j < length ?ms.
        map_of tagTable (tag_key (k + 1 + j)) = Some (match_text (?ms ! j))"
    proof (intro allI impI)
      fix j assume "j < length ?ms"
      with 2(3) [unfolded ms, rule_format, of "Suc j"] show
        "map_of tagTable (tag_key (k + 1 + j)) = Some (match_text (?ms ! j))" by simp
    qed
    with 2(2) [OF Some] have ih:
      "decode_text tagTable (encode_text (k + 1) (drop n (c # cs))) = drop n (c # cs)"
      by blast
    from 2(3) [unfolded ms, rule_format, of 0]
    have "map_of tagTable (tag_key k) = Some (take n (c # cs))" by simp
    with Some ih show ?thesis
      by (simp add: decode_text_tag_key del: take_Suc_Cons drop_Suc_Cons)
  qed
qed

lemma decode_loop:
  assumes "i = length pre" and "lastIndex \<le> length pre"
  shows "\<exists>tokens' lastIndex'.
           foldl (decode_step (pre @ suf) tagTable) (tokens, lastIndex) (matchAll_from i suf)
             = (tokens', lastIndex')
         \<and> lastIndex' \<le> length (pre @ suf)
         \<and> concat tokens' @ drop lastIndex' (pre @ suf)
             = concat tokens @ drop lastIndex pre @ decode_text tagTable suf"
  using assms
proof (induction i suf arbitrary: pre tokens lastIndex rule: matchAll_from.induct)
  case (1 i)
  then show ?case by simp
next
  case (2 i c cs)
  show ?case
  proof (cases "regex_match_at (c # cs)")
    case None
    have "\<exists>tokens' lastIndex'.
           foldl (decode_step ((pre @ [c]) @ cs) tagTable) (tokens, lastIndex)
              (matchAll_from (i + 1) cs) = (tokens', lastIndex')
         \<and> lastIndex' \<le> length ((pre @ [c]) @ cs)
         \<and> concat tokens' @ drop lastIndex' ((pre @ [c]) @ cs)
             = concat tokens @ drop lastIndex (pre @ [c]) @ decode_text tagTable cs"
      using 2(3,4) by (intro 2(1) [OF None]) simp_all
    with None 2(4) show ?thesis by simp
  next
    case (Some n)
    let ?m = "take n (c # cs)"
    let ?rest = "drop n (c # cs)"
    let ?v = "case map_of tagTable ?m of Some v \<Rightarrow> v | None \<Rightarrow> []"
    have n: "length ?m = n" using regex_match_at_le [OF Some] by simp
    have split: "pre @ c # cs = (pre @ ?m) @ ?rest" by simp
    have "\<exists>tokens' lastIndex'.
           foldl (decode_step ((pre @ ?m) @ ?rest) tagTable)
              (tokens @ [drop lastIndex pre] @ [?v], i + n)
              (matchAll_from (i + n) ?rest) = (tokens', lastIndex')
         \<and> lastIndex' \<le> length ((pre @ ?m) @ ?rest)
         \<and> concat tokens' @ drop lastIndex' ((pre @ ?m) @ ?rest)
             = concat (tokens @ [drop lastIndex pre] @ [?v]) @ drop (i + n) (pre @ ?m)
                 @ decode_text tagTable ?rest"
      using 2(3) n by (intro 2(2) [OF Some]) simp_all
    moreover have "decode_step (pre @ c # cs) tagTable (tokens, lastIndex)
        \<lparr>match_index = i, match_text = ?m\<rparr> = (tokens @ [drop lastIndex pre] @ [?v], i + n)"
      using 2(3,4) n by (simp add: decode_step_def Let_def substring_prefix)
    ultimately show ?thesis
      using Some 2(3) n unfolding split [symmetric]
      by (simp del: take_Suc_Cons drop_Suc_Cons)
  qed
qed

lemma decode_eq_decode_text: "decode message tagTable = decode_text tagTable message"
proof -
  obtain tokens' lastIndex' where
    "foldl (decode_step ([] @ message) tagTable) ([], 0) (matchAll_from 0 message)
       = (tokens', lastIndex')"
    "lastIndex' \<le> length ([] @ message)"
    "concat tokens' @ drop lastIndex' ([] @ message)
       = concat [] @ drop 0 [] @ decode_text tagTable message"
    using decode_loop [of 0 "[]" 0 message tagTable "[]"] by auto
  then show ?thesis
    by (simp add: decode_def matchAll_def substring_from_def)
qed

lemma encode_loop:
  assumes "i = length pre" and "lastIndex \<le> length pre"
    and "map fst tagTable = map tag_key [0..<counter]"
  shows "\<exists>tokens' lastIndex'.
           foldl (encode_step (pre @ suf)) (tokens, tagTable, counter, lastIndex)
              (matchAll_from i suf)
             = (tokens',
                tagTable @ zip (map tag_key [counter..<counter + length (matchAll_from i suf)])
                               (map match_text (matchAll_from i suf)),
                counter + length (matchAll_from i suf), lastIndex')
         \<and> lastIndex' \<le> length (pre @ suf)
         \<and> concat tokens' @ drop lastIndex' (pre @ suf)
             = concat tokens @ drop lastIndex pre @ encode_text counter suf"
  using assms
proof (induction i suf arbitrary: pre tokens tagTable counter lastIndex
    rule: matchAll_from.induct)
  case (1 i)
  then show ?case by simp
next
  case (2 i c cs)
  show ?case
  proof (cases "regex_match_at (c # cs)")
    case None
    have "\<exists>tokens' lastIndex'.
           foldl (encode_step ((pre @ [c]) @ cs)) (tokens, tagTable, counter, lastIndex)
              (matchAll_from (i + 1) cs)
             = (tokens',
                tagTable @ zip (map tag_key [counter..<counter + length (matchAll_from (i + 1) cs)])
                               (map match_text (matchAll_from (i + 1) cs)),
                counter + length (matchAll_from (i + 1) cs), lastIndex')
         \<and> lastIndex' \<le> length ((pre @ [c]) @ cs)
         \<and> concat tokens' @ drop lastIndex' ((pre @ [c]) @ cs)
             = concat tokens @ drop lastIndex (pre @ [c]) @ encode_text counter cs"
      using 2(3,4,5) by (intro 2(1) [OF None]) simp_all
    with None 2(4) show ?thesis by simp
  next
    case (Some n)
    let ?m = "take n (c # cs)"
    let ?rest = "drop n (c # cs)"
    let ?ms = "matchAll_from (i + n) ?rest"
    let ?tbl = "tagTable @ [(tag_key counter, ?m)]"
    have n: "length ?m = n" using regex_match_at_le [OF Some] by simp
    have split: "pre @ c # cs = (pre @ ?m) @ ?rest" by simp
    have fresh: "tag_key counter \<notin> fst ` set tagTable"
    proof -
      have keys: "fst ` set tagTable = tag_key ` {0..<counter}"
        using 2(5) by (metis list.set_map set_upt)
      show ?thesis
      proof
        assume "tag_key counter \<in> fst ` set tagTable"
        with keys obtain x where "x < counter" "tag_key counter = tag_key x" by auto
        then show False using tag_key_inj [of counter x] by simp
      qed
    qed
    have keys: "map fst ?tbl = map tag_key [0..<counter + 1]"
      using 2(5) by simp
    have "\<exists>tokens' lastIndex'.
           foldl (encode_step ((pre @ ?m) @ ?rest))
              (tokens @ [drop lastIndex pre] @ [tag_key counter], ?tbl, counter + 1, i + n) ?ms
             = (tokens',
                ?tbl @ zip (map tag_key [counter + 1..<counter + 1 + length ?ms])
                           (map match_text ?ms),
                counter + 1 + length ?ms, lastIndex')
         \<and> lastIndex' \<le> length ((pre @ ?m) @ ?rest)
         \<and> concat tokens' @ drop lastIndex' ((pre @ ?m) @ ?rest)
             = concat (tokens @ [drop lastIndex pre] @ [tag_key counter])
                 @ drop (i + n) (pre @ ?m) @ encode_text (counter + 1) ?rest"
      using 2(3) n keys by (intro 2(2) [OF Some]) simp_all
    moreover have "encode_step (pre @ c # cs) (tokens, tagTable, counter, lastIndex)
        \<lparr>match_index = i, match_text = ?m\<rparr>
        = (tokens @ [drop lastIndex pre] @ [tag_key counter], ?tbl, counter + 1, i + n)"
      using 2(3,4) n fresh by (simp add: encode_step_def Let_def substring_prefix update_fresh)
    moreover have "[counter..<counter + Suc (length ?ms)]
        = counter # [counter + 1..<counter + 1 + length ?ms]"
      using upt_conv_Cons [of counter "counter + Suc (length ?ms)"] by (simp del: upt_Suc)
    ultimately show ?thesis
      using Some 2(3) n unfolding split [symmetric]
      by (simp del: take_Suc_Cons drop_Suc_Cons upt_Suc)
  qed
qed

lemma encode_eq:
  "encode message =
     (encode_text 0 message,
      zip (map tag_key [0..<length (matchAll message)]) (map match_text (matchAll message)))"
proof -
  obtain tokens' lastIndex' where
    "foldl (encode_step ([] @ message)) ([], [], 0, 0) (matchAll_from 0 message)
       = (tokens',
          [] @ zip (map tag_key [0..<0 + length (matchAll_from 0 message)])
                   (map match_text (matchAll_from 0 message)),
          0 + length (matchAll_from 0 message), lastIndex')"
    "lastIndex' \<le> length ([] @ message)"
    "concat tokens' @ drop lastIndex' ([] @ message)
       = concat [] @ drop 0 [] @ encode_text 0 message"
    using encode_loop [of 0 "[]" 0 "[]" 0 message "[]"] by auto
  then show ?thesis
    by (simp add: encode_def matchAll_def substring_from_def)
qed

text \<open>
  Claim C2. For every string \<open>s\<close>, decoding the text that \<open>encode s\<close> produced, with the
  tag table of the same call, gives \<open>s\<close> back.
\<close>

theorem decode_encode: "decode (fst (encode s)) (snd (encode s)) = s"
proof -
  let ?ms = "matchAll_from 0 s"
  let ?tbl = "zip (map tag_key [0..<length ?ms]) (map match_text ?ms)"
  have "distinct (map tag_key [0..<length ?ms])"
    by (simp add: distinct_map inj_on_def) (metis tag_key_inj)
  then have "\<forall>j < length ?ms. map_of ?tbl (tag_key (0 + j)) = Some (match_text (?ms ! j))"
    using map_of_zip_nth [of "map tag_key [0..<length ?ms]" "map match_text ?ms"]
    by fastforce
  then have "decode_text ?tbl (encode_text 0 s) = s"
    by (rule decode_text_encode_text)
  then show ?thesis
    by (simp add: encode_eq decode_eq_decode_text matchAll_def)
qed

lemma decode_text_literal:
  assumes "matchAll_from i lit = []" and "rest = [] \<or> hd rest = cu CHR ''<''"
  shows "decode_text tagTable (lit @ rest) = lit @ decode_text tagTable rest"
  using assms(1)
proof (induction lit arbitrary: i)
  case Nil
  show ?case by simp
next
  case (Cons c cs)
  from Cons.prems have none: "regex_match_at (c # cs) = None"
    by (cases "regex_match_at (c # cs)") simp_all
  with Cons.prems have "matchAll_from (i + 1) cs = []" by simp
  then have "decode_text tagTable (cs @ rest) = cs @ decode_text tagTable rest"
    by (rule Cons.IH)
  moreover have "regex_match_at ((c # cs) @ rest) = None"
    using regex_match_at_append_lt [of "c # cs" rest] assms(2) none by simp
  ultimately show ?case by simp
qed

lemma decode_text_tag:
  assumes "regex_match_at tag = Some (length tag)"
  shows "decode_text tagTable (tag @ rest) =
     (case map_of tagTable tag of Some v \<Rightarrow> v | None \<Rightarrow> []) @ decode_text tagTable rest"
proof -
  from assms obtain c cs where tag: "tag = c # cs"
    using regex_match_at_hd by (cases tag) auto
  have "regex_match_at (c # cs @ rest) = Some (length tag)"
    using regex_match_at_append [OF assms, of rest] tag by simp
  then show ?thesis using tag by simp
qed

lemma regex_match_at_take:
  assumes "regex_match_at s = Some n"
  shows "regex_match_at (take n s) = Some n"
  using assms
proof (induction s rule: regex_match_at.induct)
  case (1 c1 c2 rest)
  then obtain x where dw: "dropWhile is_tag_body rest = cu CHR ''>'' # x"
    and n: "n = length (takeWhile is_tag_body rest) + 3"
    and c: "c1 = cu CHR ''<''" "c2 = cu CHR '':'' \<or> c2 = cu CHR ''@''"
    by (auto split: if_splits list.splits simp del: dropWhile_eq_Nil_conv)
  define tw where "tw = takeWhile is_tag_body rest"
  have rest: "rest = tw @ cu CHR ''>'' # x"
    using takeWhile_dropWhile_id [of is_tag_body rest] dw by (simp add: tw_def)
  have body: "\<forall>y \<in> set tw. is_tag_body y"
    by (auto simp: tw_def dest: set_takeWhileD)
  have n': "n = length tw + 3" using n by (simp add: tw_def)
  have "take (length tw + 1) rest = tw @ [cu CHR ''>'']"
    by (subst rest) simp
  then have t: "take n (c1 # c2 # rest) = c1 # c2 # tw @ [cu CHR ''>'']"
    unfolding n' by (simp add: numeral_3_eq_3)
  have "dropWhile is_tag_body (tw @ [cu CHR ''>'']) = [cu CHR ''>'']"
    "takeWhile is_tag_body (tw @ [cu CHR ''>'']) = tw"
    using not_tag_body_gt body
    by (simp_all add: dropWhile_append2 takeWhile_append2)
  with t c n' show ?case by simp
qed simp_all

lemma first_match:
  assumes "matchAll_from i s \<noteq> []"
  shows "\<exists>lit tag rest. s = lit @ tag @ rest \<and> (\<forall>j. matchAll_from j lit = [])
      \<and> regex_match_at tag = Some (length tag)
      \<and> hd (matchAll_from i s) = \<lparr>match_index = i + length lit, match_text = tag\<rparr>"
  using assms
proof (induction i s rule: matchAll_from.induct)
  case (1 i)
  then show ?case by simp
next
  case (2 i c cs)
  show ?case
  proof (cases "regex_match_at (c # cs)")
    case (Some n)
    have n: "length (take n (c # cs)) = n" using regex_match_at_le [OF Some] by simp
    have "c # cs = [] @ take n (c # cs) @ drop n (c # cs)" by simp
    moreover have "\<forall>j. matchAll_from j [] = []" by simp
    moreover have "regex_match_at (take n (c # cs)) = Some (length (take n (c # cs)))"
      using regex_match_at_take [OF Some] n by simp
    moreover have "hd (matchAll_from i (c # cs))
        = \<lparr>match_index = i + length ([] :: jsstring), match_text = take n (c # cs)\<rparr>"
      using Some by simp
    ultimately show ?thesis by blast
  next
    case None
    with 2(3) have "matchAll_from (i + 1) cs \<noteq> []" by simp
    from 2(1) [OF None this] obtain lit tag rest where
      d: "cs = lit @ tag @ rest" "\<forall>j. matchAll_from j lit = []"
        "regex_match_at tag = Some (length tag)"
        "hd (matchAll_from (i + 1) cs) = \<lparr>match_index = i + 1 + length lit, match_text = tag\<rparr>"
      by blast
    have "tag @ rest = [] \<or> hd (tag @ rest) = cu CHR ''<''"
      using regex_match_at_hd [OF d(3)] by auto
    then have "regex_match_at ((c # lit) @ tag @ rest) = regex_match_at (c # lit)"
      by (intro regex_match_at_append_lt) simp_all
    with None d(1) have "regex_match_at (c # lit) = None" by simp
    with d(2) have "\<forall>j. matchAll_from j (c # lit) = []" by simp
    moreover have "c # cs = (c # lit) @ tag @ rest" using d(1) by simp
    moreover have "hd (matchAll_from i (c # cs))
        = \<lparr>match_index = i + length (c # lit), match_text = tag\<rparr>"
      using None d(4) by simp
    ultimately show ?thesis using d(3) by blast
  qed
qed

text \<open>
  Claim C6. \<open>decode\<close> leaves a text without a match of the pattern unchanged; and on a
  text that starts with such a span \<open>lit\<close> followed by a tag, it copies \<open>lit\<close>, puts the
  original stored for the tag in the table, or nothing when the table has no entry for
  it, and goes on in the same way with the rest. Every message that has a match is of this
  form, with the first match of the scan as the tag.
\<close>

theorem decode_replaces_tags:
  "(matchAll lit = [] \<longrightarrow> decode lit tagTable = lit) \<and>
   (matchAll lit = [] \<and> regex_match_at tag = Some (length tag) \<longrightarrow>
      decode (lit @ tag @ rest) tagTable =
        lit @ (case map_of tagTable tag of Some original \<Rightarrow> original | None \<Rightarrow> [])
            @ decode rest tagTable) \<and>
   (matchAll message \<noteq> [] \<longrightarrow>
      (\<exists>lit tag rest. message = lit @ tag @ rest \<and> matchAll lit = []
         \<and> regex_match_at tag = Some (length tag)
         \<and> hd (matchAll message) = \<lparr>match_index = length lit, match_text = tag\<rparr>))"
proof (intro conjI impI)
  assume "matchAll lit = []"
  then show "decode lit tagTable = lit"
    using decode_text_literal [of 0 lit "[]" tagTable]
    by (simp add: decode_eq_decode_text matchAll_def)
next
  assume a: "matchAll lit = [] \<and> regex_match_at tag = Some (length tag)"
  then have "tag @ rest = [] \<or> hd (tag @ rest) = cu CHR ''<''"
    using regex_match_at_hd [of tag] by auto
  with a have "decode_text tagTable (lit @ tag @ rest)
      = lit @ decode_text tagTable (tag @ rest)"
    by (intro decode_text_literal [of 0]) (simp_all add: matchAll_def)
  with a show "decode (lit @ tag @ rest) tagTable =
        lit @ (case map_of tagTable tag of Some original \<Rightarrow> original | None \<Rightarrow> [])
            @ decode rest tagTable"
    by (simp add: decode_eq_decode_text decode_text_tag)
next
  assume "matchAll message \<noteq> []"
  then show "\<exists>lit tag rest. message = lit @ tag @ rest \<and> matchAll lit = []
         \<and> regex_match_at tag = Some (length tag)
         \<and> hd (matchAll message) = \<lparr>match_index = length lit, match_text = tag\<rparr>"
    using first_match [of 0 message] unfolding matchAll_def by fastforce
qed

theorem decode_replaces_tags_witness:
  "matchAll (js ''ab '') = [] \<and> regex_match_at (js ''<:0>'') = Some (length (js ''<:0>''))
   \<and> decode (js ''ab '') [(js ''<:0>'', js ''<@123>'')] = js ''ab ''
   \<and> decode (js ''ab '' @ js ''<:0>'' @ js '' <:7> c'') [(js ''<:0>'', js ''<@123>'')]
       = js ''ab <@123>  c''
   \<and> matchAll (js ''ab <:0> <:7> c'') \<noteq> []
   \<and> (\<exists>lit tag rest. js ''ab <:0> <:7> c'' = lit @ tag @ rest \<and> matchAll lit = []
         \<and> regex_match_at tag = Some (length tag)
         \<and> hd (matchAll (js ''ab <:0> <:7> c''))
             = \<lparr>match_index = length lit, match_text = tag\<rparr>)"
proof -
  have h: "matchAll (js ''ab '') = [] \<and> regex_match_at (js ''<:0>'') = Some (length (js ''<:0>''))"
    by code_simp
  have r: "decode (js '' <:7> c'') [(js ''<:0>'', js ''<@123>'')] = js ''  c''"
    by code_simp
  have m: "map_of [(js ''<:0>'', js ''<@123>'')] (js ''<:0>'') = Some (js ''<@123>'')"
    by code_simp
  have j: "js ''ab '' @ js ''<@123>'' @ js ''  c'' = js ''ab <@123>  c''"
    by code_simp
  have ne: "matchAll (js ''ab <:0> <:7> c'') \<noteq> []"
    by code_simp
  note law = decode_replaces_tags [of "js ''ab ''" "[(js ''<:0>'', js ''<@123>'')]"
      "js ''<:0>''" "js '' <:7> c''" "js ''ab <:0> <:7> c''"]
  from law h have "decode (js ''ab '') [(js ''<:0>'', js ''<@123>'')] = js ''ab ''"
    by blast
  moreover from law h
  have "decode (js ''ab '' @ js ''<:0>'' @ js '' <:7> c'') [(js ''<:0>'', js ''<@123>'')]
       = js ''ab <@123>  c''"
    by (simp only: r m j option.case)
  moreover from law ne
  have "\<exists>lit tag rest. js ''ab <:0> <:7> c'' = lit @ tag @ rest \<and> matchAll lit = []
         \<and> regex_match_at tag = Some (length tag)
         \<and> hd (matchAll (js ''ab <:0> <:7> c''))
             = \<lparr>match_index = length lit, match_text = tag\<rparr>"
    by blast
  ultimately show ?thesis using h ne by blast
qed

lemma matchAll_tag_key: "matchAll (tag_key k) = [\<lparr>match_index = 0, match_text = tag_key k\<rparr>]"
proof -
  obtain c cs where key: "tag_key k = c # cs" by (simp add: tag_key_Cons)
  have "regex_match_at (c # cs) = Some (length (c # cs))"
    using regex_match_at_tag_key [of k "[]"] key by simp
  then show ?thesis
    unfolding matchAll_def key by simp
qed

text \<open>
  Claim C10. For a string with \<open>k\<close> matches, the keys of the tag table of \<open>encode\<close> are
  \<open><:0>\<close>, ..., \<open><:k-1>\<close> in this order, with the matched texts in the order of the
  matches as values; the keys are pairwise distinct and each key is itself one match of
  the pattern.
\<close>

theorem encode_tagTable_keys:
  "map fst (snd (encode s)) = map tag_key [0..<length (matchAll s)]
   \<and> map snd (snd (encode s)) = map match_text (matchAll s)
   \<and> distinct (map fst (snd (encode s)))
   \<and> (\<forall>key \<in> set (map fst (snd (encode s))).
         matchAll key = [\<lparr>match_index = 0, match_text = key\<rparr>])"
proof -
  have d: "distinct (map tag_key [0..<length (matchAll s)])"
    by (simp add: distinct_map inj_on_def) (metis tag_key_inj)
  show ?thesis
    using d by (auto simp: encode_eq matchAll_tag_key)
qed

theorem encode_tagTable_keys_witness:
  "js ''<:1>'' \<in> set (map fst (snd (encode (js ''<@1><@2>''))))
   \<and> matchAll (js ''<:1>'') = [\<lparr>match_index = 0, match_text = js ''<:1>''\<rparr>]"
proof -
  have "js ''<:1>'' \<in> set (map fst (snd (encode (js ''<@1><@2>''))))"
    by code_simp
  with encode_tagTable_keys [of "js ''<@1><@2>''"] show ?thesis by blast
qed

section \<open>Properties of the relay\<close>

lemma fst_await:
  "fst (await p k) = fst p @ (case snd p of Inl e \<Rightarrow> [] | Inr x \<Rightarrow> fst (k x))"
  by (auto simp: await_def split: prod.splits sum.splits)

lemma snd_await:
  "snd (await p k) = (case snd p of Inl e \<Rightarrow> Inl e | Inr x \<Rightarrow> snd (k x))"
  by (auto simp: await_def split: prod.splits sum.splits)

lemma fst_try_catch:
  "fst (try_catch p h) = fst p @ (case snd p of Inl e \<Rightarrow> fst (h e) | Inr x \<Rightarrow> [])"
  by (auto simp: try_catch_def split: prod.splits sum.splits)

lemma snd_try_catch:
  "snd (try_catch p h) = (case snd p of Inl e \<Rightarrow> snd (h e) | Inr x \<Rightarrow> Inr x)"
  by (auto simp: try_catch_def split: prod.splits sum.splits)

lemma await_lookup_Inr: "await (lookup (Inr x)) k = k x"
  by (simp add: await_def lookup_def split: prod.splits)

lemma await_lookup_Inl: "await (lookup (Inl e)) k = ([], Inl e)"
  by (simp add: await_def lookup_def)

lemma await_resolve: "await (resolve x) k = k x"
  by (simp add: await_def resolve_def split: prod.splits)

lemma fst_resolve: "fst (resolve x) = []" and snd_resolve: "snd (resolve x) = Inr x"
  by (simp_all add: resolve_def)

lemma fst_lookup: "fst (lookup r) = []" and snd_lookup: "snd (lookup r) = r"
  by (simp_all add: lookup_def)

lemma fst_call: "fst (call ev r) = [ev]" and snd_call: "snd (call ev r) = r"
  by (simp_all add: call_def)

lemmas promise_simps = fst_await snd_await fst_try_catch snd_try_catch fst_resolve snd_resolve
  fst_lookup snd_lookup fst_call snd_call

lemma trim_blank:
  assumes "\<forall>c \<in> set content. is_js_whitespace c"
  shows "trim content = []"
proof -
  from assms have blank: "dropWhile is_js_whitespace content = []"
    by (induction content) simp_all
  show ?thesis unfolding trim_def blank by simp
qed

text \<open>
  Claim C8. For a body that is empty or consists of white space only, \<open>translate\<close> resolves
  to \<open>undefined\<close> without any event, whatever the collaborators are: the text is not
  encoded and the translator is not called.
\<close>

theorem translate_blank:
  "\<forall>c \<in> set content. is_js_whitespace c \<Longrightarrow>
     translate env content sourceLang targetLang = ([], Inr None)"
  by (simp add: translate_def trim_blank resolve_def)

theorem translate_blank_witness:
  "list_all is_js_whitespace [0x20, 0x9, 0xA, 0x3000]
   \<and> translate ex_env [0x20, 0x9, 0xA, 0x3000] (js ''en'') (js ''es'') = ([], Inr None)"
proof -
  have h: "\<forall>c \<in> set [0x20, 0x9, 0xA, 0x3000]. is_js_whitespace c"
    by (simp add: is_js_whitespace_def)
  from h translate_blank [OF h] show ?thesis by (simp add: list_all_iff)
qed

lemma fst_own_webhook_message: "fst (own_webhook_message env message) = []"
  by (simp add: own_webhook_message_def promise_simps split: sum.splits)

text \<open>
  Claim C5. When the translation config or the topology entry of the origin channel is
  absent, the create path causes no event at all: no webhook send, no saved link document,
  nothing logged. When moreover the webhook check at the start and both lookups return,
  the handler completes without an error.
\<close>

theorem execute_unconfigured:
  assumes "translateChannels_get env (msg_channelId message) = Inr None
         \<or> channelLinks_get env (msg_channelId message) = Inr None"
  shows "fst (execute env message) = []
       \<and> ((\<exists>own. snd (own_webhook_message env message) = Inr own)
           \<and> (\<exists>a. translateChannels_get env (msg_channelId message) = Inr a)
           \<and> (\<exists>b. channelLinks_get env (msg_channelId message) = Inr b)
          \<longrightarrow> snd (execute env message) = Inr ())"
  using assms
  by (auto simp: execute_def promise_simps fst_own_webhook_message
      split: sum.splits option.splits)

theorem execute_unconfigured_witness:
  "translateChannels_get ex_env (msg_channelId ex_unconfigured) = Inr None
   \<and> fst (execute ex_env ex_unconfigured) = []
   \<and> snd (execute ex_env ex_unconfigured) = Inr ()"
proof -
  have h: "translateChannels_get ex_env (msg_channelId ex_unconfigured) = Inr None"
    by code_simp
  have own: "snd (own_webhook_message ex_env ex_unconfigured) = Inr False"
    by code_simp
  have links: "channelLinks_get ex_env (msg_channelId ex_unconfigured) = Inr None"
    by code_simp
  from execute_unconfigured [of ex_env ex_unconfigured, OF disjI1, OF h] h own links
  show ?thesis by blast
qed

lemma fst_buildReplyEmbed: "fst (buildReplyEmbed env message replyChannel) = []"
  by (simp add: buildReplyEmbed_def promise_simps split: option.splits sum.splits)

lemma fst_translate:
  "fst (translate env content sourceLang targetLang) =
     (if trim content = [] then []
      else [TranslateText (fst (encode content)) sourceLang targetLang])"
  by (simp add: translate_def promise_simps split: prod.splits sum.splits)

lemma snd_translate:
  "snd (translate env content sourceLang targetLang) =
     (if trim content = [] then Inr None
      else (case translator_translateText env (fst (encode content)) sourceLang targetLang of
              Inl e \<Rightarrow> Inl e
            | Inr text \<Rightarrow> Inr (Some (decode text (snd (encode content))))))"
  by (simp add: translate_def promise_simps split: prod.splits sum.splits)

lemma translateChannel_found:
  assumes "client_channels_cache_get env channelId = Some channel"
    and "channel_type channel = GuildText"
    and "webhookCache_get env channel = Inr webhook"
    and "translateChannels_get env (channel_id channel) = Inr (Some target)"
  shows "translateChannel env message channelId sourceTrChannel =
     try_catch
       (translateChannel_try env message channel webhook sourceTrChannel target
          (username_of message) (avatarURL_of message))
       (\<lambda>error. await (call (ErrorDebug error) (Inr ())) (\<lambda>_. resolve None))"
  using assms by (simp add: translateChannel_def await_lookup_Inr)

lemma translateChannel_try_no_save:
  "MessageLinkSave r \<notin> set (fst (translateChannel_try env message channel webhook
       sourceTrChannel target username avatarURL))"
  by (auto simp: translateChannel_try_def promise_simps fst_buildReplyEmbed fst_translate Let_def
      split: sum.splits list.splits if_splits)

lemma translateChannel_no_save:
  "MessageLinkSave r \<notin> set (fst (translateChannel env message channelId sourceTrChannel))"
  using translateChannel_try_no_save
  by (auto simp: translateChannel_def promise_simps Let_def
      split: option.splits sum.splits if_splits)

lemma snd_translateChannel_try_catch:
  "\<exists>r. snd (try_catch p (\<lambda>error. await (call (ErrorDebug error) (Inr ())) (\<lambda>_. resolve None)))
        = Inr r"
  by (simp add: promise_simps split: sum.splits)

lemma fst_Promise_all: "fst (Promise_all ps) = concat (map fst ps)"
  and snd_Promise_all: "snd (Promise_all ps) = collect (map snd ps)"
  by (simp_all add: Promise_all_def)

lemma collect_map_Inr: "collect (map Inr xs) = Inr xs"
  by (induction xs) simp_all

lemma collect_Inr_D: "collect rs = Inr xs \<Longrightarrow> rs = map Inr xs"
  by (induction rs arbitrary: xs rule: collect.induct) (auto split: sum.splits)

lemma collect_Inr_iff: "collect rs = Inr xs \<longleftrightarrow> rs = map Inr xs"
  using collect_map_Inr collect_Inr_D by blast

lemma collect_Inl: "collect rs = Inl e \<Longrightarrow> Inl e \<in> set rs"
  by (induction rs rule: collect.induct) (auto split: sum.splits)

lemma find_snoc:
  "find P (xs @ [x]) = (case find P xs of Some y \<Rightarrow> Some y | None \<Rightarrow> if P x then Some x else None)"
  by (induction xs) auto

lemma link_links_messageLink_of:
  "link_links (messageLink_of message messages) =
     map (\<lambda>m. link_item_of (the m)) (filter (\<lambda>m. m \<noteq> None) messages) @ [link_item_of message]"
  by (simp add: messageLink_of_def)

lemma own_webhook_message_eq:
  "own_webhook_message env message = ([], snd (own_webhook_message env message))"
  by (simp add: prod_eq_iff fst_own_webhook_message)

lemma execute_configured:
  assumes "snd (own_webhook_message env message) = Inr False"
    and "translateChannels_get env (msg_channelId message) = Inr (Some source)"
    and "channelLinks_get env (msg_channelId message) = Inr (Some chlink)"
  shows "execute env message =
     await (Promise_all
              (map (\<lambda>linked. translateChannel env message (linked_id linked) source)
                 (chlink_links chlink)))
       (\<lambda>messages. call (MessageLinkSave (messageLink_of message messages))
                      (MessageLink_save env (messageLink_of message messages)))"
proof -
  have "own_webhook_message env message = ([], Inr False)"
    using own_webhook_message_eq [of env message] assms(1) by simp
  then show ?thesis
    using assms(2,3) by (simp add: execute_def await_def lookup_def Let_def)
qed

lemma execute_not_configured:
  assumes "\<not> (\<exists>source chlink. snd (own_webhook_message env message) = Inr False
      \<and> translateChannels_get env (msg_channelId message) = Inr (Some source)
      \<and> channelLinks_get env (msg_channelId message) = Inr (Some chlink))"
  shows "fst (execute env message) = []"
proof (cases "snd (own_webhook_message env message)")
  case (Inl e)
  then show ?thesis
    by (simp add: execute_def promise_simps fst_own_webhook_message)
next
  case (Inr own)
  show ?thesis
  proof (cases own)
    case True
    with Inr show ?thesis
      by (simp add: execute_def promise_simps fst_own_webhook_message)
  next
    case False
    show ?thesis
    proof (cases "translateChannels_get env (msg_channelId message)")
      case (Inl e)
      with Inr False show ?thesis
        by (simp add: execute_def promise_simps fst_own_webhook_message)
    next
      case a: (Inr a)
      show ?thesis
      proof (cases "channelLinks_get env (msg_channelId message)")
        case (Inl e)
        with Inr False a show ?thesis
          by (simp add: execute_def promise_simps fst_own_webhook_message)
      next
        case b: (Inr b)
        from assms Inr False a b have "a = None \<or> b = None" by auto
        with Inr False a b show ?thesis
          by (auto simp: execute_def promise_simps fst_own_webhook_message
              split: option.splits)
      qed
    qed
  qed
qed

lemma execute_saved:
  assumes "MessageLinkSave record \<in> set (fst (execute env message))"
  shows "\<exists>source chlink messages.
           translateChannels_get env (msg_channelId message) = Inr (Some source)
         \<and> channelLinks_get env (msg_channelId message) = Inr (Some chlink)
         \<and> map (\<lambda>linked. snd (translateChannel env message (linked_id linked) source))
               (chlink_links chlink) = map Inr messages
         \<and> record = messageLink_of message messages"
proof -
  from assms execute_not_configured [of env message] obtain source chlink where
    own: "snd (own_webhook_message env message) = Inr False" and
    src: "translateChannels_get env (msg_channelId message) = Inr (Some source)" and
    top: "channelLinks_get env (msg_channelId message) = Inr (Some chlink)"
    by fastforce
  let ?branches = "map (\<lambda>linked. translateChannel env message (linked_id linked) source)
      (chlink_links chlink)"
  have no_save: "MessageLinkSave record \<notin> set (concat (map fst ?branches))"
    using translateChannel_no_save by auto
  have events: "fst (execute env message) = concat (map fst ?branches)
      @ (case collect (map snd ?branches) of
           Inl e \<Rightarrow> []
         | Inr messages \<Rightarrow> [MessageLinkSave (messageLink_of message messages)])"
    unfolding execute_configured [OF own src top]
    by (simp add: promise_simps fst_Promise_all snd_Promise_all split: sum.splits)
  obtain messages where
    "collect (map snd ?branches) = Inr messages" "record = messageLink_of message messages"
  proof (cases "collect (map snd ?branches)")
    case (Inl e)
    with assms no_save events show ?thesis by simp
  next
    case (Inr messages)
    with assms no_save events that show ?thesis by simp
  qed
  then show ?thesis
    using src top by (auto simp: collect_Inr_iff comp_def)
qed

text \<open>
  Claim C9. Every link document that the create path saves has the pair of the origin
  message and the origin channel as the last entry of \<open>links\<close>, after the links of the
  messages the branches returned. So the element-match query of the reply preview, asked
  for the origin message in its channel, finds a document once the saved one is stored,
  and finds the saved one when no earlier document has that pair.
\<close>

theorem saved_link_ends_with_origin:
  assumes "MessageLinkSave record \<in> set (fst (execute env message))"
  shows "link_links record \<noteq> []
       \<and> last (link_links record)
           = \<lparr>item_messageId = msg_id message, item_channelId = msg_channelId message\<rparr>
       \<and> (\<exists>source chlink messages.
             translateChannels_get env (msg_channelId message) = Inr (Some source)
           \<and> channelLinks_get env (msg_channelId message) = Inr (Some chlink)
           \<and> map (\<lambda>linked. snd (translateChannel env message (linked_id linked) source))
                (chlink_links chlink) = map Inr messages
           \<and> butlast (link_links record)
               = map (\<lambda>m. link_item_of (the m)) (filter (\<lambda>m. m \<noteq> None) messages))
       \<and> findOne_links_elemMatch (documents @ [record]) (msg_id message) (msg_channelId message)
           \<noteq> None
       \<and> (findOne_links_elemMatch documents (msg_id message) (msg_channelId message) = None
            \<longrightarrow> findOne_links_elemMatch (documents @ [record]) (msg_id message)
                   (msg_channelId message) = Some record)"
proof -
  from execute_saved [OF assms] obtain source chlink messages where
    s: "translateChannels_get env (msg_channelId message) = Inr (Some source)"
       "channelLinks_get env (msg_channelId message) = Inr (Some chlink)"
       "map (\<lambda>linked. snd (translateChannel env message (linked_id linked) source))
               (chlink_links chlink) = map Inr messages"
       "record = messageLink_of message messages"
    by blast
  have links: "link_links record =
      map (\<lambda>m. link_item_of (the m)) (filter (\<lambda>m. m \<noteq> None) messages) @ [link_item_of message]"
    using s(4) by (simp add: link_links_messageLink_of)
  have origin: "list_ex (\<lambda>item. item_messageId item = msg_id message
      \<and> item_channelId item = msg_channelId message) (link_links record)"
    unfolding links by (simp add: link_item_of_def)
  have "link_links record \<noteq> []" unfolding links by simp
  moreover have "last (link_links record)
      = \<lparr>item_messageId = msg_id message, item_channelId = msg_channelId message\<rparr>"
    unfolding links by (simp add: link_item_of_def)
  moreover have "butlast (link_links record)
      = map (\<lambda>m. link_item_of (the m)) (filter (\<lambda>m. m \<noteq> None) messages)"
    unfolding links by (simp add: butlast_append)
  moreover have "findOne_links_elemMatch (documents @ [record]) (msg_id message)
      (msg_channelId message) \<noteq> None"
    using origin by (simp add: findOne_links_elemMatch_def find_snoc split: option.splits)
  moreover have "findOne_links_elemMatch documents (msg_id message) (msg_channelId message) = None
      \<longrightarrow> findOne_links_elemMatch (documents @ [record]) (msg_id message)
             (msg_channelId message) = Some record"
    using origin by (simp add: findOne_links_elemMatch_def find_snoc)
  ultimately show ?thesis using s(1,2,3) by blast
qed

theorem saved_link_ends_with_origin_witness:
  "MessageLinkSave (ex_saved (js ''500'')) \<in> set (fst (execute ex_env ex_hello))
   \<and> last (link_links (ex_saved (js ''500'')))
       = \<lparr>item_messageId = msg_id ex_hello, item_channelId = msg_channelId ex_hello\<rparr>
   \<and> findOne_links_elemMatch ([ex_link_440, ex_link_640] @ [ex_saved (js ''500'')])
         (msg_id ex_hello) (msg_channelId ex_hello) = Some (ex_saved (js ''500''))"
proof -
  have h: "MessageLinkSave (ex_saved (js ''500'')) \<in> set (fst (execute ex_env ex_hello))"
    by code_simp
  have absent: "findOne_links_elemMatch [ex_link_440, ex_link_640]
      (msg_id ex_hello) (msg_channelId ex_hello) = None"
    by code_simp
  from saved_link_ends_with_origin [OF h, of "[ex_link_440, ex_link_640]"] h absent
  show ?thesis by blast
qed

lemma buildReplyEmbed_eq:
  "buildReplyEmbed env message channel = ([], snd (buildReplyEmbed env message channel))"
  by (simp add: prod_eq_iff fst_buildReplyEmbed)

lemma translateChannel_try_send:
  assumes "WebhookSend w payload \<in> set (fst (translateChannel_try env message channel webhook
      sourceTrChannel target username avatarURL))"
  shows "\<exists>reply base. snd (buildReplyEmbed env message channel) = Inr reply
      \<and> (case msg_stickers message of
            sticker # _ \<Rightarrow>
              base = Some (js ''https://media.discordapp.net/stickers/'' @ sticker @ js ''.webp'')
          | [] \<Rightarrow>
              snd (translate env (msg_content message) (tr_sourceLang sourceTrChannel)
                     (tr_targetLang target)) = Inr base)
      \<and> payload_content payload = addReplyPing base (replyAuthorId_of reply)"
proof (cases "snd (buildReplyEmbed env message channel)")
  case (Inl e)
  with assms show ?thesis
    by (simp add: translateChannel_try_def promise_simps fst_buildReplyEmbed)
next
  case (Inr reply)
  show ?thesis
  proof (cases "msg_stickers message")
    case Nil
    show ?thesis
    proof (cases "snd (translate env (msg_content message) (tr_sourceLang sourceTrChannel)
        (tr_targetLang target))")
      case (Inl e)
      with assms Inr Nil show ?thesis
        by (auto simp: translateChannel_try_def promise_simps fst_buildReplyEmbed fst_translate
            Let_def split: if_splits)
    next
      case base: (Inr base)
      with assms Inr Nil
      have "payload_content payload = addReplyPing base (replyAuthorId_of reply)"
        by (auto simp: translateChannel_try_def promise_simps fst_buildReplyEmbed fst_translate
            Let_def split: if_splits)
      with Inr Nil base show ?thesis by auto
    qed
  next
    case (Cons sticker rest)
    with assms Inr have "payload_content payload = addReplyPing
        (Some (js ''https://media.discordapp.net/stickers/'' @ sticker @ js ''.webp''))
        (replyAuthorId_of reply)"
      by (auto simp: translateChannel_try_def promise_simps fst_buildReplyEmbed
          Let_def split: sum.splits if_splits)
    with Inr Cons show ?thesis by auto
  qed
qed

lemma translateChannel_send:
  assumes "WebhookSend w payload \<in> set (fst (translateChannel env message channelId
      sourceTrChannel))"
  shows "\<exists>channel target reply base. client_channels_cache_get env channelId = Some channel
      \<and> translateChannels_get env (channel_id channel) = Inr (Some target)
      \<and> snd (buildReplyEmbed env message channel) = Inr reply
      \<and> (case msg_stickers message of
            sticker # _ \<Rightarrow>
              base = Some (js ''https://media.discordapp.net/stickers/'' @ sticker @ js ''.webp'')
          | [] \<Rightarrow>
              snd (translate env (msg_content message) (tr_sourceLang sourceTrChannel)
                     (tr_targetLang target)) = Inr base)
      \<and> payload_content payload = addReplyPing base (replyAuthorId_of reply)"
proof -
  from assms obtain channel where
    ch: "client_channels_cache_get env channelId = Some channel"
      "channel_type channel = GuildText"
    by (cases "client_channels_cache_get env channelId")
      (auto simp: translateChannel_def promise_simps split: if_splits)
  from assms ch obtain webhook where wh: "webhookCache_get env channel = Inr webhook"
    by (cases "webhookCache_get env channel")
      (auto simp: translateChannel_def promise_simps)
  from assms ch wh obtain t where t: "translateChannels_get env (channel_id channel) = Inr t"
    by (cases "translateChannels_get env (channel_id channel)")
      (auto simp: translateChannel_def promise_simps)
  from assms ch wh t obtain target where target: "t = Some target"
    by (cases t) (auto simp: translateChannel_def promise_simps)
  from assms have "WebhookSend w payload \<in> set (fst (translateChannel_try env message channel
      webhook sourceTrChannel target (username_of message) (avatarURL_of message)))"
    unfolding translateChannel_found [OF ch wh t [unfolded target]]
    by (auto simp: promise_simps split: sum.splits)
  with ch(1) t target have
    "client_channels_cache_get env channelId = Some channel"
    "translateChannels_get env (channel_id channel) = Inr (Some target)"
    "WebhookSend w payload \<in> set (fst (translateChannel_try env message channel webhook
      sourceTrChannel target (username_of message) (avatarURL_of message)))"
    by simp_all
  then show ?thesis
    using translateChannel_try_send by blast
qed

lemma js_append: "js (a @ b) = js a @ js b"
  by (simp add: js_def)

lemma addReplyPing_replyAuthorId:
  "addReplyPing base (replyAuthorId_of reply) =
     (case reply of
        None \<Rightarrow> base
      | Some r \<Rightarrow>
          (let author = msg_author (reply_message r);
               mention = js ''<@'' @ user_id author @ js ''>''
           in if user_bot author \<or> user_id author = [] then base
              else if truthy base \<and> string_includes (the base) mention then base
              else Some ((if truthy base then the base @ js '' '' else []) @ mention)))"
proof -
  have "js '' <@'' = js '' '' @ js ''<@''"
    by (simp add: js_def)
  then show ?thesis
    by (simp add: addReplyPing_def replyAuthorId_of_def Let_def split: option.splits)
qed

text \<open>
  Claim C7, as the code has it. The content of every post of \<open>translateChannel\<close> is its
  base content (the sticker link, or what \<open>translate\<close> resolved to) passed through
  \<open>addReplyPing\<close> with the author of the reply preview. When no preview was resolved, the
  content is the base content. When one was, with the message \<open>r\<close> fetched in the target
  channel: if the author of \<open>r\<close> is a bot (or has an empty id), or the base content already
  has the mention of that author, the content is the base content; otherwise it is the
  mention alone for an empty base content, and the base content, a space and the mention
  else.
\<close>

theorem reply_ping:
  assumes "WebhookSend webhook payload
             \<in> set (fst (translateChannel env message channelId sourceTrChannel))"
  shows "\<exists>channel target reply base.
           client_channels_cache_get env channelId = Some channel
         \<and> translateChannels_get env (channel_id channel) = Inr (Some target)
         \<and> snd (buildReplyEmbed env message channel) = Inr reply
         \<and> (case msg_stickers message of
               sticker # _ \<Rightarrow>
                 base = Some (js ''https://media.discordapp.net/stickers/'' @ sticker
                                @ js ''.webp'')
             | [] \<Rightarrow>
                 snd (translate env (msg_content message) (tr_sourceLang sourceTrChannel)
                        (tr_targetLang target)) = Inr base)
         \<and> (case reply of
              None \<Rightarrow> payload_content payload = base
            | Some r \<Rightarrow>
                (let author = msg_author (reply_message r);
                     mention = js ''<@'' @ user_id author @ js ''>''
                 in if user_bot author \<or> user_id author = [] then payload_content payload = base
                    else if truthy base \<and> string_includes (the base) mention
                    then payload_content payload = base
                    else payload_content payload
                           = Some ((if truthy base then the base @ js '' '' else []) @ mention)))"
proof -
  from translateChannel_send [OF assms] obtain channel target reply base where
    c: "client_channels_cache_get env channelId = Some channel"
       "translateChannels_get env (channel_id channel) = Inr (Some target)"
       "snd (buildReplyEmbed env message channel) = Inr reply"
       "case msg_stickers message of
            sticker # _ \<Rightarrow>
              base = Some (js ''https://media.discordapp.net/stickers/'' @ sticker @ js ''.webp'')
          | [] \<Rightarrow>
              snd (translate env (msg_content message) (tr_sourceLang sourceTrChannel)
                     (tr_targetLang target)) = Inr base"
       "payload_content payload = addReplyPing base (replyAuthorId_of reply)"
    by blast
  have "case reply of
              None \<Rightarrow> payload_content payload = base
            | Some r \<Rightarrow>
                (let author = msg_author (reply_message r);
                     mention = js ''<@'' @ user_id author @ js ''>''
                 in if user_bot author \<or> user_id author = [] then payload_content payload = base
                    else if truthy base \<and> string_includes (the base) mention
                    then payload_content payload = base
                    else payload_content payload
                           = Some ((if truthy base then the base @ js '' '' else []) @ mention))"
    unfolding c(5) addReplyPing_replyAuthorId
    by (simp add: Let_def split: option.splits)
  with c(1-4) show ?thesis by blast
qed

theorem reply_ping_witness:
  "WebhookSend (ex_webhook (js ''200''))
       ((ex_payload (js ''[es] gracias <@77>''))\<lparr>payload_embeds := Some [ex_reply_embed]\<rparr>)
     \<in> set (fst (translateChannel ex_env ex_reply (js ''200'') ex_source_en))
   \<and> (\<exists>channel target reply base.
           client_channels_cache_get ex_env (js ''200'') = Some channel
         \<and> translateChannels_get ex_env (channel_id channel) = Inr (Some target)
         \<and> snd (buildReplyEmbed ex_env ex_reply channel) = Inr reply
         \<and> (case msg_stickers ex_reply of
               sticker # _ \<Rightarrow>
                 base = Some (js ''https://media.discordapp.net/stickers/'' @ sticker
                                @ js ''.webp'')
             | [] \<Rightarrow>
                 snd (translate ex_env (msg_content ex_reply) (tr_sourceLang ex_source_en)
                        (tr_targetLang target)) = Inr base)
         \<and> (case reply of
              None \<Rightarrow> payload_content ((ex_payload (js ''[es] gracias <@77>''))
                        \<lparr>payload_embeds := Some [ex_reply_embed]\<rparr>) = base
            | Some r \<Rightarrow>
                (let author = msg_author (reply_message r);
                     mention = js ''<@'' @ user_id author @ js ''>''
                 in if user_bot author \<or> user_id author = []
                    then payload_content ((ex_payload (js ''[es] gracias <@77>''))
                           \<lparr>payload_embeds := Some [ex_reply_embed]\<rparr>) = base
                    else if truthy base \<and> string_includes (the base) mention
                    then payload_content ((ex_payload (js ''[es] gracias <@77>''))
                           \<lparr>payload_embeds := Some [ex_reply_embed]\<rparr>) = base
                    else payload_content ((ex_payload (js ''[es] gracias <@77>''))
                           \<lparr>payload_embeds := Some [ex_reply_embed]\<rparr>)
                           = Some ((if truthy base then the base @ js '' '' else []) @ mention))))"
proof -
  have h: "WebhookSend (ex_webhook (js ''200''))
       ((ex_payload (js ''[es] gracias <@77>''))\<lparr>payload_embeds := Some [ex_reply_embed]\<rparr>)
     \<in> set (fst (translateChannel ex_env ex_reply (js ''200'') ex_source_en))"
    by code_simp
  from h reply_ping [OF h] show ?thesis by (rule conjI)
qed

text \<open>
  The claim as stated fails for a reply to a message that no link document contains: the
  author of the replied-to message is a human, the content has no mention of that author,
  and the post carries no mention.
\<close>

theorem reply_ping_counterexample:
  "msg_reference ex_reply_old = Some (js ''460'')
   \<and> message_fetchReference ex_env ex_reply_old
       = Inr (Some (ex_message (js ''460'') (js ''100'') (js ''77'') (js ''good morning'')))
   \<and> \<not> user_bot (msg_author (ex_message (js ''460'') (js ''100'') (js ''77'')
                                 (js ''good morning'')))
   \<and> \<not> string_includes (js ''[es] thanks'') (js ''<@77>'')
   \<and> fst (translateChannel ex_env ex_reply_old (js ''200'') ex_source_en) =
       [TranslateText (js ''thanks'') (js ''en'') (js ''es''),
        WebhookSend (ex_webhook (js ''200'')) (ex_payload (js ''[es] thanks''))]"
  by code_simp

lemma translateChannel_skipped:
  assumes "client_channels_cache_get env channelId = None
         \<or> (\<exists>channel. client_channels_cache_get env channelId = Some channel
               \<and> (channel_type channel \<noteq> GuildText
                  \<or> ((\<exists>webhook. webhookCache_get env channel = Inr webhook)
                     \<and> translateChannels_get env (channel_id channel) = Inr None)))"
  shows "translateChannel env message channelId sourceTrChannel = ([], Inr None)"
  using assms
  by (auto simp: translateChannel_def await_lookup_Inr resolve_def)

lemma translateChannel_caught:
  assumes "client_channels_cache_get env channelId = Some channel"
    and "channel_type channel = GuildText"
    and "webhookCache_get env channel = Inr webhook"
    and "translateChannels_get env (channel_id channel) = Inr (Some target)"
    and "snd (translateChannel_try env message channel webhook sourceTrChannel target
           (username_of message) (avatarURL_of message)) = Inl e"
  shows "translateChannel env message channelId sourceTrChannel =
     (fst (translateChannel_try env message channel webhook sourceTrChannel target
             (username_of message) (avatarURL_of message)) @ [ErrorDebug e], Inr None)"
  unfolding translateChannel_found [OF assms(1-4)]
  using assms(5) by (simp add: prod_eq_iff promise_simps)

lemma translateChannel_resolved:
  assumes "client_channels_cache_get env channelId = Some channel"
    and "channel_type channel = GuildText"
    and "webhookCache_get env channel = Inr webhook"
    and "translateChannels_get env (channel_id channel) = Inr (Some target)"
    and "snd (translateChannel_try env message channel webhook sourceTrChannel target
           (username_of message) (avatarURL_of message)) = Inr copy"
  shows "translateChannel env message channelId sourceTrChannel =
     (fst (translateChannel_try env message channel webhook sourceTrChannel target
             (username_of message) (avatarURL_of message)), Inr copy)"
  unfolding translateChannel_found [OF assms(1-4)]
  using assms(5) by (simp add: prod_eq_iff promise_simps)

lemma translateChannel_contained:
  assumes "\<forall>channel. client_channels_cache_get env channelId = Some channel
              \<and> channel_type channel = GuildText \<longrightarrow>
             (\<exists>webhook target. webhookCache_get env channel = Inr webhook
                \<and> translateChannels_get env (channel_id channel) = Inr target)"
  shows "\<exists>copy. snd (translateChannel env message channelId sourceTrChannel) = Inr copy"
proof (cases "client_channels_cache_get env channelId")
  case None
  then show ?thesis by (simp add: translateChannel_skipped)
next
  case (Some channel)
  show ?thesis
  proof (cases "channel_type channel = GuildText")
    case False
    with Some show ?thesis by (simp add: translateChannel_skipped)
  next
    case True
    with assms Some obtain webhook target where
      w: "webhookCache_get env channel = Inr webhook"
        "translateChannels_get env (channel_id channel) = Inr target" by blast
    show ?thesis
    proof (cases target)
      case None
      with Some True w show ?thesis by (simp add: translateChannel_skipped)
    next
      case (Some t)
      show ?thesis
        unfolding translateChannel_found [OF \<open>client_channels_cache_get env channelId = Some channel\<close>
            True w(1) w(2) [unfolded Some]]
        by (rule snd_translateChannel_try_catch)
    qed
  qed
qed

lemma execute_fan_in:
  assumes "snd (own_webhook_message env message) = Inr False"
    and "translateChannels_get env (msg_channelId message) = Inr (Some source)"
    and "channelLinks_get env (msg_channelId message) = Inr (Some chlink)"
    and "map (\<lambda>linked. snd (translateChannel env message (linked_id linked) source))
           (chlink_links chlink) = map Inr messages"
  shows "execute env message =
     (concat (map (\<lambda>linked. fst (translateChannel env message (linked_id linked) source))
                (chlink_links chlink))
        @ [MessageLinkSave (messageLink_of message messages)],
      MessageLink_save env (messageLink_of message messages))"
proof -
  have "collect (map snd (map (\<lambda>linked. translateChannel env message (linked_id linked) source)
      (chlink_links chlink))) = Inr messages"
    using assms(4) by (simp add: collect_Inr_iff comp_def)
  then show ?thesis
    unfolding execute_configured [OF assms(1-3)]
    by (simp add: prod_eq_iff promise_simps fst_Promise_all snd_Promise_all comp_def)
qed

lemma all_resolved:
  assumes "\<forall>x \<in> set xs. \<exists>y. f x = Inr y"
  shows "\<exists>ys. map f xs = map Inr ys"
  using assms
proof (induction xs)
  case Nil
  show ?case by simp
next
  case (Cons x xs)
  then obtain y ys where "f x = Inr y" "map f xs = map Inr ys" by auto
  then have "map f (x # xs) = map Inr (y # ys)" by simp
  then show ?case by blast
qed

text \<open>
  What the create path does contain. Let the origin channel be configured and linked, and
  let every branch get its webhook handle and the answer of the config lookup for its
  target. Then a target that is missing from the cache, is not a text channel or has no
  config ends its branch with no copy and no event; an error raised by the reply preview,
  the translation or the send is logged after the events that came before it, and the
  branch resolves with no copy. Every branch resolves, and the handler saves one link
  document built from the results of the branches.
\<close>

lemma create_branches_contained:
  assumes "snd (own_webhook_message env message) = Inr False"
    and "translateChannels_get env (msg_channelId message) = Inr (Some source)"
    and "channelLinks_get env (msg_channelId message) = Inr (Some chlink)"
    and "\<forall>linked \<in> set (chlink_links chlink). \<forall>channel.
           client_channels_cache_get env (linked_id linked) = Some channel
             \<and> channel_type channel = GuildText \<longrightarrow>
           (\<exists>webhook target. webhookCache_get env channel = Inr webhook
              \<and> translateChannels_get env (channel_id channel) = Inr target)"
  shows "(\<forall>linked \<in> set (chlink_links chlink).
            (client_channels_cache_get env (linked_id linked) = None
               \<longrightarrow> translateChannel env message (linked_id linked) source = ([], Inr None))
          \<and> (\<forall>channel webhook.
                client_channels_cache_get env (linked_id linked) = Some channel
                \<and> (channel_type channel \<noteq> GuildText
                   \<or> webhookCache_get env channel = Inr webhook
                     \<and> translateChannels_get env (channel_id channel) = Inr None)
               \<longrightarrow> translateChannel env message (linked_id linked) source = ([], Inr None))
          \<and> (\<forall>channel webhook target e.
                client_channels_cache_get env (linked_id linked) = Some channel
                \<and> channel_type channel = GuildText
                \<and> webhookCache_get env channel = Inr webhook
                \<and> translateChannels_get env (channel_id channel) = Inr (Some target)
                \<and> snd (translateChannel_try env message channel webhook source target
                         (username_of message) (avatarURL_of message)) = Inl e
               \<longrightarrow> translateChannel env message (linked_id linked) source
                     = (fst (translateChannel_try env message channel webhook source target
                               (username_of message) (avatarURL_of message))
                          @ [ErrorDebug e], Inr None)))
       \<and> (\<exists>messages.
             map (\<lambda>linked. snd (translateChannel env message (linked_id linked) source))
               (chlink_links chlink) = map Inr messages
           \<and> execute env message =
               (concat (map (\<lambda>linked. fst (translateChannel env message (linked_id linked) source))
                          (chlink_links chlink))
                  @ [MessageLinkSave (messageLink_of message messages)],
                MessageLink_save env (messageLink_of message messages)))"
proof -
  have skipped: "translateChannel env message channelId source = ([], Inr None)"
    if "client_channels_cache_get env channelId = Some channel
        \<and> (channel_type channel \<noteq> GuildText
           \<or> webhookCache_get env channel = Inr webhook
             \<and> translateChannels_get env (channel_id channel) = Inr None)"
    for channelId channel webhook
  proof (rule translateChannel_skipped)
    from that show "client_channels_cache_get env channelId = None
         \<or> (\<exists>channel. client_channels_cache_get env channelId = Some channel
               \<and> (channel_type channel \<noteq> GuildText
                  \<or> ((\<exists>webhook. webhookCache_get env channel = Inr webhook)
                     \<and> translateChannels_get env (channel_id channel) = Inr None)))"
      by blast
  qed
  have caught: "translateChannel env message channelId source
                     = (fst (translateChannel_try env message channel webhook source target
                               (username_of message) (avatarURL_of message))
                          @ [ErrorDebug e], Inr None)"
    if "client_channels_cache_get env channelId = Some channel
                \<and> channel_type channel = GuildText
                \<and> webhookCache_get env channel = Inr webhook
                \<and> translateChannels_get env (channel_id channel) = Inr (Some target)
                \<and> snd (translateChannel_try env message channel webhook source target
                         (username_of message) (avatarURL_of message)) = Inl e"
    for channelId channel webhook target e
    using that by (intro translateChannel_caught [where channel = channel]) simp_all
  have "\<forall>linked \<in> set (chlink_links chlink).
      \<exists>copy. snd (translateChannel env message (linked_id linked) source) = Inr copy"
  proof
    fix linked assume "linked \<in> set (chlink_links chlink)"
    with assms(4) show
      "\<exists>copy. snd (translateChannel env message (linked_id linked) source) = Inr copy"
      by (intro translateChannel_contained) blast
  qed
  from all_resolved [OF this] obtain messages where
    "map (\<lambda>linked. snd (translateChannel env message (linked_id linked) source))
       (chlink_links chlink) = map Inr messages" ..
  with execute_fan_in [OF assms(1-3)] have fan_in: "\<exists>messages.
             map (\<lambda>linked. snd (translateChannel env message (linked_id linked) source))
               (chlink_links chlink) = map Inr messages
           \<and> execute env message =
               (concat (map (\<lambda>linked. fst (translateChannel env message (linked_id linked) source))
                          (chlink_links chlink))
                  @ [MessageLinkSave (messageLink_of message messages)],
                MessageLink_save env (messageLink_of message messages))"
    by blast
  have branches: "(client_channels_cache_get env (linked_id linked) = None
               \<longrightarrow> translateChannel env message (linked_id linked) source = ([], Inr None))
          \<and> (\<forall>channel webhook.
                client_channels_cache_get env (linked_id linked) = Some channel
                \<and> (channel_type channel \<noteq> GuildText
                   \<or> webhookCache_get env channel = Inr webhook
                     \<and> translateChannels_get env (channel_id channel) = Inr None)
               \<longrightarrow> translateChannel env message (linked_id linked) source = ([], Inr None))
          \<and> (\<forall>channel webhook target e.
                client_channels_cache_get env (linked_id linked) = Some channel
                \<and> channel_type channel = GuildText
                \<and> webhookCache_get env channel = Inr webhook
                \<and> translateChannels_get env (channel_id channel) = Inr (Some target)
                \<and> snd (translateChannel_try env message channel webhook source target
                         (username_of message) (avatarURL_of message)) = Inl e
               \<longrightarrow> translateChannel env message (linked_id linked) source
                     = (fst (translateChannel_try env message channel webhook source target
                               (username_of message) (avatarURL_of message))
                          @ [ErrorDebug e], Inr None))" for linked
  proof (intro conjI allI impI)
    assume "client_channels_cache_get env (linked_id linked) = None"
    then show "translateChannel env message (linked_id linked) source = ([], Inr None)"
      by (intro translateChannel_skipped disjI1)
  next
    fix channel webhook
    assume "client_channels_cache_get env (linked_id linked) = Some channel
                \<and> (channel_type channel \<noteq> GuildText
                   \<or> webhookCache_get env channel = Inr webhook
                     \<and> translateChannels_get env (channel_id channel) = Inr None)"
    then show "translateChannel env message (linked_id linked) source = ([], Inr None)"
      by (rule skipped)
  next
    fix channel webhook target e
    assume "client_channels_cache_get env (linked_id linked) = Some channel
                \<and> channel_type channel = GuildText
                \<and> webhookCache_get env channel = Inr webhook
                \<and> translateChannels_get env (channel_id channel) = Inr (Some target)
                \<and> snd (translateChannel_try env message channel webhook source target
                         (username_of message) (avatarURL_of message)) = Inl e"
    then show "translateChannel env message (linked_id linked) source
                     = (fst (translateChannel_try env message channel webhook source target
                               (username_of message) (avatarURL_of message))
                          @ [ErrorDebug e], Inr None)"
      by (rule caught)
  qed
  from branches fan_in show ?thesis by blast
qed

text \<open>
  Claim C3. Every failure inside a branch of the create path, the retrieval of the webhook
  handle among them, is to be caught and logged, the branch giving no copy, the siblings
  completing and the link document being saved. The code does not do that for the webhook
  handle: \<open>webhookCache.get\<close> is awaited before the \<open>try\<close> block of \<open>translateChannel\<close>.
  With the handle of channel \<open>300\<close> failing, the copy for channel \<open>200\<close> is posted, nothing
  is logged, the handler rejects with the error and no link document is saved. The edit
  path awaits the same call inside its \<open>try\<close> block: there the failure is logged and the
  handler completes.
\<close>

theorem webhook_failure_not_contained:
  "webhookCache_get ex_env_webhook_down (ex_channel (js ''300''))
     = Inl (Error (js ''missing permissions''))
   \<and> execute ex_env_webhook_down ex_hello =
       ([TranslateText (js ''hello <:0>'') (js ''en'') (js ''es''),
         WebhookSend (ex_webhook (js ''200'')) (ex_payload (js ''[es] hello <@7>''))],
        Inl (Error (js ''missing permissions'')))
   \<and> webhookCache_get ex_env_webhook_down_100 (ex_channel (js ''100''))
       = Inl (Error (js ''missing permissions''))
   \<and> execute_update ex_env_webhook_down_100 (ex_edit (js ''440'') (js ''buenas tardes'')) =
       ([TranslateText (js ''buenas tardes'') (js ''es'') (js ''en-US''),
         ErrorDebug (Error (js ''missing permissions''))], Inr ())"
  by code_simp

lemma translateChannel_try_translation_fails:
  assumes "msg_stickers message = []" and "trim (msg_content message) \<noteq> []"
    and "snd (buildReplyEmbed env message channel) = Inr reply"
    and "translator_translateText env (fst (encode (msg_content message)))
           (tr_sourceLang source) (tr_targetLang target) = Inl e"
  shows "translateChannel_try env message channel webhook source target username avatarURL =
     ([TranslateText (fst (encode (msg_content message))) (tr_sourceLang source)
         (tr_targetLang target)], Inl e)"
  using assms
  by (simp add: translateChannel_try_def prod_eq_iff promise_simps fst_buildReplyEmbed
      fst_translate snd_translate)

lemma translateChannel_try_sent:
  assumes "msg_stickers message = []" and "trim (msg_content message) \<noteq> []"
    and "snd (buildReplyEmbed env message channel) = Inr reply"
    and "translator_translateText env (fst (encode (msg_content message)))
           (tr_sourceLang source) (tr_targetLang target) = Inr translated"
    and "payload =
           \<lparr>payload_username = username, payload_avatarURL = avatarURL,
            payload_content =
              addReplyPing (Some (decode translated (snd (encode (msg_content message)))))
                (replyAuthorId_of reply),
            payload_files = Some (msg_attachments message),
            payload_embeds = embeds_of reply\<rparr>"
    and "webhook_send env webhook payload = Inr sent"
  shows "translateChannel_try env message channel webhook source target username avatarURL =
     ([TranslateText (fst (encode (msg_content message))) (tr_sourceLang source)
         (tr_targetLang target), WebhookSend webhook payload], Inr (Some sent))"
  using assms
  by (simp add: translateChannel_try_def prod_eq_iff promise_simps fst_buildReplyEmbed
      fst_translate snd_translate Let_def)

text \<open>
  Claim C1, as the code has it. A text message is relayed to two linked channels, in either
  order; for one of them the translator fails, for the other the translation and the send
  succeed. Then the only send is the one to the other channel, the failure is logged, and
  the saved document lists the link of the message that was sent followed by the link of
  the origin message: two entries, none for the channel whose translation failed.
\<close>

theorem one_translation_fails:
  assumes "snd (own_webhook_message env message) = Inr False"
    and "translateChannels_get env (msg_channelId message) = Inr (Some source)"
    and "channelLinks_get env (msg_channelId message) = Inr (Some chlink)"
    and "map linked_id (chlink_links chlink)
           = (if failed_first then [failedId, sentId] else [sentId, failedId])"
    and "msg_stickers message = []" and "trim (msg_content message) \<noteq> []"
    and "client_channels_cache_get env failedId = Some channel_f"
    and "channel_type channel_f = GuildText"
    and "webhookCache_get env channel_f = Inr webhook_f"
    and "translateChannels_get env (channel_id channel_f) = Inr (Some target_f)"
    and "snd (buildReplyEmbed env message channel_f) = Inr reply_f"
    and "translator_translateText env (fst (encode (msg_content message)))
           (tr_sourceLang source) (tr_targetLang target_f) = Inl e"
    and "client_channels_cache_get env sentId = Some channel_s"
    and "channel_type channel_s = GuildText"
    and "webhookCache_get env channel_s = Inr webhook_s"
    and "translateChannels_get env (channel_id channel_s) = Inr (Some target_s)"
    and "snd (buildReplyEmbed env message channel_s) = Inr reply_s"
    and "translator_translateText env (fst (encode (msg_content message)))
           (tr_sourceLang source) (tr_targetLang target_s) = Inr translated"
    and "payload =
           \<lparr>payload_username = username_of message, payload_avatarURL = avatarURL_of message,
            payload_content =
              addReplyPing (Some (decode translated (snd (encode (msg_content message)))))
                (replyAuthorId_of reply_s),
            payload_files = Some (msg_attachments message),
            payload_embeds = embeds_of reply_s\<rparr>"
    and "webhook_send env webhook_s payload = Inr sent"
    and "record =
           \<lparr>link_authorId = user_id (msg_author message), link_messageId = msg_id message,
            link_channelId = msg_channelId message,
            link_links = [link_item_of sent, link_item_of message]\<rparr>"
  shows "execute env message =
     ((if failed_first
       then [TranslateText (fst (encode (msg_content message))) (tr_sourceLang source)
               (tr_targetLang target_f),
             ErrorDebug e,
             TranslateText (fst (encode (msg_content message))) (tr_sourceLang source)
               (tr_targetLang target_s),
             WebhookSend webhook_s payload]
       else [TranslateText (fst (encode (msg_content message))) (tr_sourceLang source)
               (tr_targetLang target_s),
             WebhookSend webhook_s payload,
             TranslateText (fst (encode (msg_content message))) (tr_sourceLang source)
               (tr_targetLang target_f),
             ErrorDebug e])
        @ [MessageLinkSave record],
      MessageLink_save env record)"
proof -
  have failed: "translateChannel env message failedId source =
      ([TranslateText (fst (encode (msg_content message))) (tr_sourceLang source)
          (tr_targetLang target_f), ErrorDebug e], Inr None)"
    using translateChannel_caught [OF assms(7-10), of message source e]
      translateChannel_try_translation_fails [OF assms(5,6,11,12)]
    by simp
  have sent: "translateChannel env message sentId source =
      ([TranslateText (fst (encode (msg_content message))) (tr_sourceLang source)
          (tr_targetLang target_s), WebhookSend webhook_s payload], Inr (Some sent))"
    using translateChannel_resolved [OF assms(13-16), of message source "Some sent"]
      translateChannel_try_sent [OF assms(5,6,17,18,19,20)]
    by simp
  show ?thesis
  proof (cases failed_first)
    case True
    with assms(4) obtain l1 l2 where
      l: "chlink_links chlink = [l1, l2]" "linked_id l1 = failedId" "linked_id l2 = sentId"
      by auto
    have "map (\<lambda>linked. snd (translateChannel env message (linked_id linked) source))
        (chlink_links chlink) = map Inr [None, Some sent]"
      using l failed sent by simp
    from execute_fan_in [OF assms(1-3) this] True l failed sent assms(21)
    show ?thesis by (simp add: messageLink_of_def)
  next
    case False
    with assms(4) obtain l1 l2 where
      l: "chlink_links chlink = [l1, l2]" "linked_id l1 = sentId" "linked_id l2 = failedId"
      by auto
    have "map (\<lambda>linked. snd (translateChannel env message (linked_id linked) source))
        (chlink_links chlink) = map Inr [Some sent, None]"
      using l failed sent by simp
    from execute_fan_in [OF assms(1-3) this] False l failed sent assms(21)
    show ?thesis by (simp add: messageLink_of_def)
  qed
qed

theorem one_translation_fails_witness:
  "execute ex_env ex_bye =
     ([TranslateText (js ''bye'') (js ''en'') (js ''es''),
       WebhookSend (ex_webhook (js ''200'')) (ex_payload (js ''[es] bye'')),
       TranslateText (js ''bye'') (js ''en'') (js ''fr''),
       ErrorDebug (Error (js ''quota exceeded'')),
       MessageLinkSave (ex_saved (js ''501''))], Inr ())"
proof -
  have "execute ex_env ex_bye =
     ((if False
       then [TranslateText (fst (encode (msg_content ex_bye))) (tr_sourceLang ex_source_en)
               (tr_targetLang \<lparr>tr_sourceLang = js ''fr'', tr_targetLang = js ''fr''\<rparr>),
             ErrorDebug (Error (js ''quota exceeded'')),
             TranslateText (fst (encode (msg_content ex_bye))) (tr_sourceLang ex_source_en)
               (tr_targetLang \<lparr>tr_sourceLang = js ''es'', tr_targetLang = js ''es''\<rparr>),
             WebhookSend (ex_webhook (js ''200'')) (ex_payload (js ''[es] bye''))]
       else [TranslateText (fst (encode (msg_content ex_bye))) (tr_sourceLang ex_source_en)
               (tr_targetLang \<lparr>tr_sourceLang = js ''es'', tr_targetLang = js ''es''\<rparr>),
             WebhookSend (ex_webhook (js ''200'')) (ex_payload (js ''[es] bye'')),
             TranslateText (fst (encode (msg_content ex_bye))) (tr_sourceLang ex_source_en)
               (tr_targetLang \<lparr>tr_sourceLang = js ''fr'', tr_targetLang = js ''fr''\<rparr>),
             ErrorDebug (Error (js ''quota exceeded''))])
        @ [MessageLinkSave (ex_saved (js ''501''))],
      MessageLink_save ex_env (ex_saved (js ''501'')))"
    by (rule one_translation_fails [where chlink = ex_chlink and failedId = "js ''300''"
          and sentId = "js ''200''" and channel_f = "ex_channel (js ''300'')"
          and channel_s = "ex_channel (js ''200'')" and webhook_f = "ex_webhook (js ''300'')"
          and reply_f = None and reply_s = None and translated = "js ''[es] bye''"
          and sent = "ex_copy (js ''9200'') (js ''200'') (Some (js ''[es] bye''))"])
      code_simp+
  also have "\<dots> =
     ([TranslateText (js ''bye'') (js ''en'') (js ''es''),
       WebhookSend (ex_webhook (js ''200'')) (ex_payload (js ''[es] bye'')),
       TranslateText (js ''bye'') (js ''en'') (js ''fr''),
       ErrorDebug (Error (js ''quota exceeded'')),
       MessageLinkSave (ex_saved (js ''501''))], Inr ())"
    by code_simp
  finally show ?thesis .
qed

text \<open>
  The claim as stated fails on the length: the saved list has two entries, the copy and
  the origin.
\<close>

theorem one_translation_fails_counterexample:
  "execute ex_env ex_hello =
     ([TranslateText (js ''hello <:0>'') (js ''en'') (js ''es''),
       WebhookSend (ex_webhook (js ''200'')) (ex_payload (js ''[es] hello <@7>'')),
       TranslateText (js ''hello <:0>'') (js ''en'') (js ''fr''),
       ErrorDebug (Error (js ''quota exceeded'')),
       MessageLinkSave (ex_saved (js ''500''))], Inr ())
   \<and> length (link_links (ex_saved (js ''500''))) = 2"
  by code_simp











end
